theory Spec2Isabelle
  imports Main
begin

section \<open>Image references: constants and string helpers\<close>

text \<open>
  Go strings are byte sequences; they are modelled as \<open>string\<close>, a list of 8-bit
  characters. The constants are those of \<^verbatim>\<open>util/image/reference.go\<close>.
\<close>

definition DefaultTag :: string where
  "DefaultTag = ''latest''"

definition WrongRegistryHostname :: string where
  "WrongRegistryHostname = ''docker.io''"

definition DefaultRegistryHostname :: string where
  "DefaultRegistryHostname = ''index.docker.io''"

definition DefaultScheme :: string where
  "DefaultScheme = ''https''"

definition DefaultRepoPrefix :: string where
  "DefaultRepoPrefix = ''library/''"

text \<open>
  \<^verbatim>\<open>strings.IndexRune(s, c)\<close> for an ASCII \<open>c\<close>: the index of the first byte equal to
  \<open>c\<close>, or \<open>-1\<close>.
\<close>

definition IndexRune :: "string \<Rightarrow> char \<Rightarrow> int" where
  "IndexRune s c =
     (if c \<in> set s then int (length (takeWhile (\<lambda>x. x \<noteq> c) s)) else - 1)"

definition ContainsRune :: "string \<Rightarrow> char \<Rightarrow> bool" where
  "ContainsRune s c = (c \<in> set s)"

definition ContainsAny :: "string \<Rightarrow> string \<Rightarrow> bool" where
  "ContainsAny s chars = list_ex (\<lambda>c. c \<in> set chars) s"

definition HasPrefix :: "string \<Rightarrow> string \<Rightarrow> bool" where
  "HasPrefix s p = (length p \<le> length s \<and> take (length p) s = p)"

definition TrimPrefix :: "string \<Rightarrow> string \<Rightarrow> string" where
  "TrimPrefix s p = (if HasPrefix s p then drop (length p) s else s)"

text \<open>
  \<^verbatim>\<open>strings.Replace(s, old, new, 1)\<close>: the first occurrence of \<open>old\<close> in \<open>s\<close> is
  replaced by \<open>new\<close>.
\<close>

fun Replace1 :: "string \<Rightarrow> string \<Rightarrow> string \<Rightarrow> string" where
  "Replace1 [] old new = (if old = [] then new else [])"
| "Replace1 (c # cs) old new =
     (if HasPrefix (c # cs) old then new @ drop (length old) (c # cs)
      else c # Replace1 cs old new)"

text \<open>
  \<^verbatim>\<open>strings.ToLower\<close> has two branches. On a string of ASCII bytes only (every
  byte below \<^verbatim>\<open>utf8.RuneSelf\<close>, \<open>0x80\<close>) the letters \<open>A\<close> to \<open>Z\<close> are moved to
  \<open>a\<close> to \<open>z\<close> and every other byte is kept. On any other string the result is
  \<^verbatim>\<open>strings.Map(unicode.ToLower, s)\<close>, which decodes the runes, lower-cases them by the
  Unicode tables and replaces invalid bytes. That branch belongs to the standard
  library; it is the parameter \<open>M\<close> of the model, and what is proved is proved for
  every \<open>M\<close>.
\<close>

definition isASCII :: "string \<Rightarrow> bool" where
  "isASCII s = list_all (\<lambda>c. (of_char c :: nat) < 128) s"

definition lower_byte :: "char \<Rightarrow> char" where
  "lower_byte c =
     (let n = (of_char c :: nat) in if 65 \<le> n \<and> n \<le> 90 then char_of (n + 32) else c)"

definition ToLower :: "(string \<Rightarrow> string) \<Rightarrow> string \<Rightarrow> string" where
  "ToLower M s = (if isASCII s then map lower_byte s else M s)"

section \<open>The hostname normalizer\<close>

text \<open>
  \<^verbatim>\<open>splitHostname\<close>: the slices \<^verbatim>\<open>name[:i]\<close> and \<^verbatim>\<open>name[i+1:]\<close> are
  \<open>take\<close> and \<open>drop\<close>; they are read only when \<open>i \<noteq> -1\<close>, as in the source.
\<close>

definition splitHostname :: "string \<Rightarrow> string \<times> string" where
  "splitHostname name =
     (let i = IndexRune name CHR ''/'';
          (hostname, remoteName) =
             (if i = - 1 \<or> (\<not> ContainsAny (take (nat i) name) ''.:''
                              \<and> take (nat i) name \<noteq> ''localhost'')
              then (DefaultRegistryHostname, name)
              else (take (nat i) name, drop (nat (i + 1)) name));
          hostname = (if hostname = WrongRegistryHostname
                      then DefaultRegistryHostname else hostname);
          remoteName = (if hostname = DefaultRegistryHostname
                           \<and> \<not> ContainsRune remoteName CHR ''/''
                        then DefaultRepoPrefix @ remoteName else remoteName)
      in (hostname, remoteName))"

text \<open>
  The test \<^verbatim>\<open>splitHostname\<close> applies to the first segment of a name, named for
  the proofs: the segment is read as a hostname when it holds a dot or a colon or is
  \<^verbatim>\<open>localhost\<close>.
\<close>

definition hostlike :: "string \<Rightarrow> bool" where
  "hostlike h = (ContainsAny h ''.:'' \<or> h = ''localhost'')"

text \<open>
  The errors of the package, one constructor for each message the source builds:
  \<^item> \<open>ErrParsingReference s e\<close>: \<^verbatim>\<open>Error parsing reference: %q is not a valid
    repository/tag, error: %s\<close>, with the string and the grammar parser's message;
  \<^item> \<open>ErrNotLowercase\<close>: \<^verbatim>\<open>invalid reference format: repository name must be
    lowercase\<close>;
  \<^item> \<open>ErrHexName n\<close>: \<^verbatim>\<open>Invalid repository name (%s), cannot specify 64-byte
    hexadecimal strings\<close>;
  \<^item> \<open>ErrReference e\<close>: an error of the \<^verbatim>\<open>reference\<close> package, returned as it is;
  \<^item> \<open>Panic\<close>: a method call on a nil interface or a failed type assertion.
\<close>

datatype error =
    ErrParsingReference string string
  | ErrNotLowercase
  | ErrHexName string
  | ErrReference string
  | Panic

text \<open>
  \<^verbatim>\<open>normalize\<close>: the name without the default hostname and without the
  \<^verbatim>\<open>library/\<close> prefix. (\<open>normalize\<close> is a constant of HOL, hence the suffix.)
\<close>

definition normalize_name :: "(string \<Rightarrow> string) \<Rightarrow> string \<Rightarrow> error + string" where
  "normalize_name M name =
     (let (host, remoteName) = splitHostname name
      in if ToLower M remoteName \<noteq> remoteName then Inl ErrNotLowercase
         else if host = DefaultRegistryHostname
              then (if HasPrefix remoteName DefaultRepoPrefix
                    then Inr (TrimPrefix remoteName DefaultRepoPrefix)
                    else Inr remoteName)
              else Inr name)"

text \<open>
  Modelled from the spec: the function \<^verbatim>\<open>ValidateID\<close> of the package, which
  \<^verbatim>\<open>validateName\<close> calls and whose definition is missing from the sources. The
  specification rejects "any name that is syntactically a 64-character hexadecimal
  string", spelt "64 lowercase hex chars" in its testable properties. The result says
  whether the returned error is nil, that is, whether the string is such an identifier.
\<close>

definition ValidateID :: "string \<Rightarrow> bool" where
  "ValidateID name =
     (length name = 64 \<and> list_all (\<lambda>c. c \<in> set ''0123456789abcdef'') name)"

definition validateName :: "string \<Rightarrow> error option" where
  "validateName name = (if ValidateID name then Some (ErrHexName name) else None)"

section \<open>The grammar parser, an external collaborator\<close>

text \<open>
  The package \<^verbatim>\<open>reference\<close> of the distribution project is imported, not part of the
  repository. A value of its interface \<^verbatim>\<open>reference.Named\<close> is immutable and is seen
  through its methods only, so it is modelled as the record of what they return:
  \<^verbatim>\<open>Name()\<close>, \<^verbatim>\<open>String()\<close>, and, when the value also implements
  \<^verbatim>\<open>reference.NamedTagged\<close> or \<^verbatim>\<open>reference.Canonical\<close>, its \<^verbatim>\<open>Tag()\<close> or
  \<^verbatim>\<open>Digest()\<close> (a \<^verbatim>\<open>digest.Digest\<close> is a string type).
\<close>

record rvalue =
  ref_Name :: string
  ref_String :: string
  ref_Tag :: "string option"
  ref_Digest :: "string option"

text \<open>
  The three implementations of \<^verbatim>\<open>Named\<close> embed a \<^verbatim>\<open>reference.Named\<close>:
  \<^verbatim>\<open>namedRef{r}\<close>, \<^verbatim>\<open>taggedRef{namedRef{r}}\<close> and \<^verbatim>\<open>canonicalRef{namedRef{r}}\<close>.
  A value of the interface \<^verbatim>\<open>Named\<close> is \<open>named option\<close>, with \<open>None\<close> for nil.
\<close>

datatype named = namedRef rvalue | taggedRef rvalue | canonicalRef rvalue

text \<open>
  The four functions of the \<^verbatim>\<open>reference\<close> package that the source calls are
  parameters of the model. Each returns a value or an error message. \<^verbatim>\<open>WithTag\<close> and
  \<^verbatim>\<open>WithDigest\<close> receive the caller's \<^verbatim>\<open>Named\<close> value itself.
\<close>

record reflib =
  ParseNormalizedNamed :: "string \<Rightarrow> string + rvalue"
  ref_WithName :: "string \<Rightarrow> string + rvalue"
  ref_WithTag :: "named option \<Rightarrow> string \<Rightarrow> string + rvalue"
  ref_WithDigest :: "named option \<Rightarrow> string \<Rightarrow> string + rvalue"

section \<open>Named references\<close>

fun embedded :: "named \<Rightarrow> rvalue" where
  "embedded (namedRef r) = r"
| "embedded (taggedRef r) = r"
| "embedded (canonicalRef r) = r"

text \<open>\<^verbatim>\<open>Name\<close> and \<^verbatim>\<open>String\<close> are promoted from the embedded value.\<close>

definition named_Name :: "named \<Rightarrow> string" where
  "named_Name n = ref_Name (embedded n)"

definition named_String :: "named \<Rightarrow> string" where
  "named_String n = ref_String (embedded n)"

definition FullName :: "named \<Rightarrow> string" where
  "FullName n = (let (hostname, remoteName) = splitHostname (named_Name n)
                 in hostname @ ''/'' @ remoteName)"

definition Hostname :: "named \<Rightarrow> string" where
  "Hostname n = (let (hostname, remoteName) = splitHostname (named_Name n) in hostname)"

definition RemoteName :: "named \<Rightarrow> string" where
  "RemoteName n = (let (hostname, remoteName) = splitHostname (named_Name n) in remoteName)"

text \<open>
  \<^verbatim>\<open>(*taggedRef).Tag\<close> and \<^verbatim>\<open>(*canonicalRef).Digest\<close> assert the type of the
  embedded value; the assertion panics when the value has no such method.
\<close>

definition taggedRef_Tag :: "rvalue \<Rightarrow> error + string" where
  "taggedRef_Tag r = (case ref_Tag r of Some t \<Rightarrow> Inr t | None \<Rightarrow> Inl Panic)"

definition canonicalRef_Digest :: "rvalue \<Rightarrow> error + string" where
  "canonicalRef_Digest r = (case ref_Digest r of Some d \<Rightarrow> Inr d | None \<Rightarrow> Inl Panic)"

definition WithName :: "(string \<Rightarrow> string) \<Rightarrow> reflib \<Rightarrow> string \<Rightarrow> error + named" where
  "WithName M L name =
     (case normalize_name M name of
        Inl err \<Rightarrow> Inl err
      | Inr name' \<Rightarrow>
          (case validateName name' of
             Some err \<Rightarrow> Inl err
           | None \<Rightarrow>
               (case ref_WithName L name' of
                  Inl err \<Rightarrow> Inl (ErrReference err)
                | Inr r \<Rightarrow> Inr (namedRef r))))"

definition WithTag :: "reflib \<Rightarrow> named option \<Rightarrow> string \<Rightarrow> error + named" where
  "WithTag L name tg =
     (case ref_WithTag L name tg of
        Inl err \<Rightarrow> Inl (ErrReference err)
      | Inr r \<Rightarrow> Inr (taggedRef r))"

definition WithDigest :: "reflib \<Rightarrow> named option \<Rightarrow> string \<Rightarrow> error + named" where
  "WithDigest L name dgst =
     (case ref_WithDigest L name dgst of
        Inl err \<Rightarrow> Inl (ErrReference err)
      | Inr r \<Rightarrow> Inr (canonicalRef r))"

definition ParseNamed :: "(string \<Rightarrow> string) \<Rightarrow> reflib \<Rightarrow> string \<Rightarrow> error + named" where
  "ParseNamed M L s =
     (case ParseNormalizedNamed L s of
        Inl err \<Rightarrow> Inl (ErrParsingReference s err)
      | Inr nm \<Rightarrow>
          (case WithName M L (ref_Name nm) of
             Inl err \<Rightarrow> Inl err
           | Inr r \<Rightarrow>
               (case ref_Digest nm of
                  Some d \<Rightarrow> WithDigest L (Some r) d
                | None \<Rightarrow>
                    (case ref_Tag nm of
                       Some t \<Rightarrow> WithTag L (Some r) t
                     | None \<Rightarrow> Inr r))))"

text \<open>
  The type assertions \<^verbatim>\<open>ref.(NamedTagged)\<close> and \<^verbatim>\<open>ref.(Canonical)\<close>: only a
  \<^verbatim>\<open>*taggedRef\<close> has the method \<^verbatim>\<open>Tag\<close>, only a \<^verbatim>\<open>*canonicalRef\<close> has
  \<^verbatim>\<open>Digest\<close>, and an assertion on nil fails.
\<close>

fun implements_NamedTagged :: "named option \<Rightarrow> bool" where
  "implements_NamedTagged (Some (taggedRef r)) = True"
| "implements_NamedTagged _ = False"

fun implements_Canonical :: "named option \<Rightarrow> bool" where
  "implements_Canonical (Some (canonicalRef r)) = True"
| "implements_Canonical _ = False"

definition IsNameOnly :: "named option \<Rightarrow> bool" where
  "IsNameOnly ref =
     (if implements_NamedTagged ref then False
      else if implements_Canonical ref then False
      else True)"

text \<open>
  \<^verbatim>\<open>WithDefaultTag\<close> drops the error of \<^verbatim>\<open>WithTag\<close>: when \<^verbatim>\<open>WithTag\<close> fails, the
  nil it returned is what \<^verbatim>\<open>ref\<close> holds.
\<close>

definition WithDefaultTag :: "reflib \<Rightarrow> named option \<Rightarrow> named option" where
  "WithDefaultTag L ref =
     (if IsNameOnly ref
      then (case WithTag L ref DefaultTag of Inl err \<Rightarrow> None | Inr t \<Rightarrow> Some t)
      else ref)"

section \<open>The reference facade and the repository record\<close>

record Reference =
  named :: "named option"
  tag :: string

definition Reference_Name :: "Reference \<Rightarrow> error + string" where
  "Reference_Name r =
     (case named r of None \<Rightarrow> Inl Panic | Some n \<Rightarrow> Inr (RemoteName n @ tag r))"

definition Reference_ShortName :: "Reference \<Rightarrow> error + string" where
  "Reference_ShortName r =
     (case named r of None \<Rightarrow> Inl Panic | Some n \<Rightarrow> Inr (RemoteName n))"

definition Reference_Tag :: "Reference \<Rightarrow> string" where
  "Reference_Tag r = (if length (tag r) > 1 then drop 1 (tag r) else [])"

definition Reference_Registry :: "Reference \<Rightarrow> error + string" where
  "Reference_Registry r =
     (case named r of None \<Rightarrow> Inl Panic | Some n \<Rightarrow> Inr (Hostname n))"

definition Reference_Repository :: "Reference \<Rightarrow> error + string" where
  "Reference_Repository r =
     (case named r of None \<Rightarrow> Inl Panic | Some n \<Rightarrow> Inr (FullName n))"

definition Reference_Remote :: "Reference \<Rightarrow> error + string" where
  "Reference_Remote r =
     (case named r of None \<Rightarrow> Inl Panic | Some n \<Rightarrow> Inr (FullName n @ tag r))"

definition clean :: "string \<Rightarrow> string" where
  "clean url =
     (if HasPrefix url ''http://'' then Replace1 url ''http://'' []
      else if HasPrefix url ''https://'' then Replace1 url ''https://'' []
      else url)"

text \<open>
  \<^verbatim>\<open>Parse\<close>. The type switch tries \<^verbatim>\<open>Canonical\<close> first, then \<^verbatim>\<open>NamedTagged\<close>;
  no case matches a \<^verbatim>\<open>*namedRef\<close> or nil, and \<^verbatim>\<open>t\<close> stays empty.
\<close>

definition Parse :: "(string \<Rightarrow> string) \<Rightarrow> reflib \<Rightarrow> string \<Rightarrow> error + Reference" where
  "Parse M L remote =
     (case ParseNamed M L (clean remote) of
        Inl err \<Rightarrow> Inl err
      | Inr n0 \<Rightarrow>
          (let n = WithDefaultTag L (Some n0) in
           case (case n of
                   Some (canonicalRef x) \<Rightarrow>
                     (case canonicalRef_Digest x of
                        Inl p \<Rightarrow> Inl p | Inr d \<Rightarrow> Inr (''@'' @ d))
                 | Some (taggedRef x) \<Rightarrow>
                     (case taggedRef_Tag x of
                        Inl p \<Rightarrow> Inl p | Inr v \<Rightarrow> Inr ('':'' @ v))
                 | _ \<Rightarrow> Inr []) of
             Inl p \<Rightarrow> Inl p
           | Inr t \<Rightarrow> Inr \<lparr>named = n, tag = t\<rparr>))"

record Repository =
  Name :: string
  Repository :: string
  Registry :: string
  Scheme :: string
  ShortName :: string
  Remote :: string
  Tag :: string

text \<open>
  \<^verbatim>\<open>ParseRepo\<close>. The composite literal names six fields; \<^verbatim>\<open>Scheme\<close> is not among
  them and keeps the zero value of its type, the empty string.
\<close>

definition ParseRepo :: "(string \<Rightarrow> string) \<Rightarrow> reflib \<Rightarrow> string \<Rightarrow> error + Repository" where
  "ParseRepo M L remote =
     (case ParseNamed M L (clean remote) of
        Inl err \<Rightarrow> Inl err
      | Inr n0 \<Rightarrow>
          (let n = WithDefaultTag L (Some n0) in
           case (case n of
                   Some (canonicalRef x) \<Rightarrow>
                     (case canonicalRef_Digest x of
                        Inl p \<Rightarrow> Inl p | Inr d \<Rightarrow> Inr (''@'' @ d))
                 | Some (taggedRef x) \<Rightarrow>
                     (case taggedRef_Tag x of
                        Inl p \<Rightarrow> Inl p | Inr v \<Rightarrow> Inr ('':'' @ v))
                 | _ \<Rightarrow> Inr []) of
             Inl p \<Rightarrow> Inl p
           | Inr t \<Rightarrow>
               (let ref = \<lparr>named = n, tag = t\<rparr> in
                (case Reference_Name ref of Inl p \<Rightarrow> Inl p | Inr name \<Rightarrow>
                (case Reference_Repository ref of Inl p \<Rightarrow> Inl p | Inr repository \<Rightarrow>
                (case Reference_Registry ref of Inl p \<Rightarrow> Inl p | Inr registry \<Rightarrow>
                (case Reference_Remote ref of Inl p \<Rightarrow> Inl p | Inr remote' \<Rightarrow>
                (case Reference_ShortName ref of Inl p \<Rightarrow> Inl p | Inr shortName \<Rightarrow>
                   Inr \<lparr>Name = name, Repository = repository, Registry = registry,
                        Scheme = [], ShortName = shortName, Remote = remote',
                        Tag = Reference_Tag ref\<rparr>))))))))"

section \<open>An instance of the grammar parser\<close>

text \<open>
  The theorems of this development hold for every \<open>reflib\<close>. To run the model on
  concrete strings, \<open>distribution\<close> follows the \<^verbatim>\<open>reference\<close> package along its
  published grammar:
  \<^verbatim>\<open>
  reference        := name [ ":" tag ] [ "@" digest ]
  name             := [domain '/'] path-component ['/' path-component]*
  domain           := domain-component ['.' domain-component]* [':' port-number]
  domain-component := /([a-zA-Z0-9]|[a-zA-Z0-9][a-zA-Z0-9-]*[a-zA-Z0-9])/
  port-number      := /[0-9]+/
  path-component   := alpha-numeric [separator alpha-numeric]*
  alpha-numeric    := /[a-z0-9]+/
  separator        := /[_.]|__|[-]*/
  tag              := /[\w][\w.-]{0,127}/
  digest           := algorithm ":" hex, with at least 32 hex digits
  \<close>
  A value prints as the package prints it: the name, then \<open>:\<close> and the tag if it has
  one, then \<open>@\<close> and the digest if it has one.
\<close>

definition dist_digit :: "char \<Rightarrow> bool" where
  "dist_digit c = (c \<in> set ''0123456789'')"

definition dist_lower :: "char \<Rightarrow> bool" where
  "dist_lower c = (c \<in> set ''abcdefghijklmnopqrstuvwxyz'')"

definition dist_alpha :: "char \<Rightarrow> bool" where
  "dist_alpha c = (dist_lower c \<or> c \<in> set ''ABCDEFGHIJKLMNOPQRSTUVWXYZ'')"

definition dist_alnum :: "char \<Rightarrow> bool" where
  "dist_alnum c = (dist_alpha c \<or> dist_digit c)"

definition dist_word :: "char \<Rightarrow> bool" where
  "dist_word c = (dist_alnum c \<or> c = CHR ''_'')"

definition dist_lower_hex :: "char \<Rightarrow> bool" where
  "dist_lower_hex c = (c \<in> set ''0123456789abcdef'')"

definition dist_hex :: "char \<Rightarrow> bool" where
  "dist_hex c = (dist_lower_hex c \<or> c \<in> set ''ABCDEF'')"

fun dist_split :: "(char \<Rightarrow> bool) \<Rightarrow> string \<Rightarrow> string list" where
  "dist_split sep [] = [[]]"
| "dist_split sep (x # xs) =
     (if sep x then [] # dist_split sep xs
      else (case dist_split sep xs of [] \<Rightarrow> [[x]] | y # ys \<Rightarrow> (x # y) # ys))"

text \<open>
  A path component, read by a small automaton: \<open>CStart\<close> and \<open>CSep\<close> want an
  alpha-numeric next, \<open>CUnder\<close> has read one underscore, \<open>CDash\<close> is inside a run of
  dashes, and \<open>CAlnum\<close>, the accepting state, has just read an alpha-numeric.
\<close>

datatype cstate = CStart | CAlnum | CSep | CUnder | CDash

definition dist_step :: "cstate \<Rightarrow> char \<Rightarrow> cstate option" where
  "dist_step st c =
     (if dist_lower c \<or> dist_digit c then Some CAlnum
      else if st = CAlnum \<and> c = CHR ''.'' then Some CSep
      else if st = CAlnum \<and> c = CHR ''_'' then Some CUnder
      else if st = CUnder \<and> c = CHR ''_'' then Some CSep
      else if (st = CAlnum \<or> st = CDash) \<and> c = CHR ''-'' then Some CDash
      else None)"

fun dist_run :: "cstate \<Rightarrow> string \<Rightarrow> bool" where
  "dist_run st [] = (st = CAlnum)"
| "dist_run st (c # cs) =
     (case dist_step st c of None \<Rightarrow> False | Some st' \<Rightarrow> dist_run st' cs)"

definition dist_component :: "string \<Rightarrow> bool" where
  "dist_component s = dist_run CStart s"

definition dist_domain_component :: "string \<Rightarrow> bool" where
  "dist_domain_component s =
     (s \<noteq> [] \<and> dist_alnum (hd s) \<and> dist_alnum (last s)
      \<and> list_all (\<lambda>c. dist_alnum c \<or> c = CHR ''-'') s)"

definition dist_domain :: "string \<Rightarrow> bool" where
  "dist_domain s =
     (let host = takeWhile (\<lambda>c. c \<noteq> CHR '':'') s;
          port = dropWhile (\<lambda>c. c \<noteq> CHR '':'') s
      in list_all dist_domain_component (dist_split (\<lambda>c. c = CHR ''.'') host)
         \<and> (port = [] \<or> (tl port \<noteq> [] \<and> list_all dist_digit (tl port))))"

definition dist_name :: "string \<Rightarrow> bool" where
  "dist_name s =
     (case dist_split (\<lambda>c. c = CHR ''/'') s of
        [] \<Rightarrow> False
      | c # cs \<Rightarrow>
          list_all dist_component cs
          \<and> (dist_component c \<or> (cs \<noteq> [] \<and> dist_domain c)))"

definition dist_tag :: "string \<Rightarrow> bool" where
  "dist_tag t =
     (t \<noteq> [] \<and> length t \<le> 128 \<and> dist_word (hd t)
      \<and> list_all (\<lambda>c. dist_word c \<or> c = CHR ''.'' \<or> c = CHR ''-'') t)"

definition dist_digest :: "string \<Rightarrow> bool" where
  "dist_digest d =
     (let alg = takeWhile (\<lambda>c. c \<noteq> CHR '':'') d;
          rest = dropWhile (\<lambda>c. c \<noteq> CHR '':'') d
      in rest \<noteq> []
         \<and> list_all (\<lambda>a. a \<noteq> [] \<and> dist_alpha (hd a) \<and> list_all dist_alnum a)
              (dist_split (\<lambda>c. c \<in> set ''-_+.'') alg)
         \<and> 32 \<le> length (tl rest) \<and> list_all dist_hex (tl rest))"

text \<open>
  Parsing also validates the digest: a known algorithm and lower-case hex digits of its
  length.
\<close>

definition dist_digest_valid :: "string \<Rightarrow> bool" where
  "dist_digest_valid d =
     (let alg = takeWhile (\<lambda>c. c \<noteq> CHR '':'') d;
          enc = drop (length alg + 1) d
      in (alg = ''sha256'' \<and> length enc = 64 \<or> alg = ''sha384'' \<and> length enc = 96
          \<or> alg = ''sha512'' \<and> length enc = 128)
         \<and> list_all dist_lower_hex enc)"

definition dist_value :: "string \<Rightarrow> string option \<Rightarrow> string option \<Rightarrow> rvalue" where
  "dist_value name tg dg =
     \<lparr>ref_Name = name,
      ref_String = name @ (case tg of None \<Rightarrow> [] | Some t \<Rightarrow> '':'' @ t)
                        @ (case dg of None \<Rightarrow> [] | Some d \<Rightarrow> ''@'' @ d),
      ref_Tag = tg, ref_Digest = dg\<rparr>"

text \<open>
  The package's own split, with its own default domain \<^verbatim>\<open>docker.io\<close>: a first
  segment with an upper-case letter is a domain.
\<close>

definition dist_splitDockerDomain :: "(string \<Rightarrow> string) \<Rightarrow> string \<Rightarrow> string \<times> string" where
  "dist_splitDockerDomain M name =
     (let i = IndexRune name CHR ''/'';
          (domain, remainder) =
             (if i = - 1 \<or> (\<not> ContainsAny (take (nat i) name) ''.:''
                              \<and> take (nat i) name \<noteq> ''localhost''
                              \<and> ToLower M (take (nat i) name) = take (nat i) name)
              then (''docker.io'', name)
              else (take (nat i) name, drop (nat (i + 1)) name));
          domain = (if domain = ''index.docker.io'' then ''docker.io'' else domain);
          remainder = (if domain = ''docker.io'' \<and> \<not> ContainsRune remainder CHR ''/''
                       then ''library/'' @ remainder else remainder)
      in (domain, remainder))"

text \<open>
  The name ends at the \<open>@\<close>; a tag is what follows the last colon, when no slash comes
  after that colon.
\<close>

definition dist_Parse :: "string \<Rightarrow> string + rvalue" where
  "dist_Parse s =
     (let nt = takeWhile (\<lambda>c. c \<noteq> CHR ''@'') s;
          dg = (if CHR ''@'' \<in> set s
                then Some (tl (dropWhile (\<lambda>c. c \<noteq> CHR ''@'') s)) else None);
          after = rev (takeWhile (\<lambda>c. c \<noteq> CHR '':'') (rev nt));
          tagged = (CHR '':'' \<in> set nt \<and> CHR ''/'' \<notin> set after);
          nm = (if tagged then take (length nt - length after - 1) nt else nt);
          tg = (if tagged then Some after else None)
      in if \<not> dist_name nm \<or> (case tg of None \<Rightarrow> False | Some t \<Rightarrow> \<not> dist_tag t)
              \<or> (case dg of None \<Rightarrow> False | Some d \<Rightarrow> \<not> dist_digest d)
         then Inl ''invalid reference format''
         else if 255 < length nm
         then Inl ''repository name must not be more than 255 characters''
         else if (case dg of None \<Rightarrow> False | Some d \<Rightarrow> \<not> dist_digest_valid d)
         then Inl ''invalid checksum digest''
         else Inr (dist_value nm tg dg))"

definition dist_ParseNormalizedNamed :: "(string \<Rightarrow> string) \<Rightarrow> string \<Rightarrow> string + rvalue" where
  "dist_ParseNormalizedNamed M s =
     (if length s = 64 \<and> list_all dist_lower_hex s
      then Inl (''invalid repository name ('' @ s
                @ ''), cannot specify 64-byte hexadecimal strings'')
      else (let (domain, remainder) = dist_splitDockerDomain M s;
                remoteName = takeWhile (\<lambda>c. c \<noteq> CHR '':'') remainder
            in if ToLower M remoteName \<noteq> remoteName
               then Inl (''invalid reference format: repository name ('' @ remoteName
                         @ '') must be lowercase'')
               else dist_Parse (domain @ ''/'' @ remainder)))"

definition dist_WithName :: "string \<Rightarrow> string + rvalue" where
  "dist_WithName name =
     (if 255 < length name
      then Inl ''repository name must not be more than 255 characters''
      else if dist_name name then Inr (dist_value name None None)
      else Inl ''invalid reference format'')"

text \<open>
  \<^verbatim>\<open>WithTag\<close> keeps the digest of a name that is \<^verbatim>\<open>Canonical\<close>, and
  \<^verbatim>\<open>WithDigest\<close> the tag of a name that is \<^verbatim>\<open>Tagged\<close>. The package calls a method
  of the name it is given; on nil the instance returns an error.
\<close>

definition dist_WithTag :: "named option \<Rightarrow> string \<Rightarrow> string + rvalue" where
  "dist_WithTag name tg =
     (if \<not> dist_tag tg then Inl ''invalid tag format''
      else (case name of
              None \<Rightarrow> Inl ''nil name''
            | Some n \<Rightarrow>
                Inr (dist_value (named_Name n) (Some tg)
                       (case n of canonicalRef r \<Rightarrow> ref_Digest r | _ \<Rightarrow> None))))"

definition dist_WithDigest :: "named option \<Rightarrow> string \<Rightarrow> string + rvalue" where
  "dist_WithDigest name dg =
     (if \<not> dist_digest dg then Inl ''invalid digest format''
      else (case name of
              None \<Rightarrow> Inl ''nil name''
            | Some n \<Rightarrow>
                Inr (dist_value (named_Name n)
                       (case n of taggedRef r \<Rightarrow> ref_Tag r | _ \<Rightarrow> None) (Some dg))))"

definition distribution :: "(string \<Rightarrow> string) \<Rightarrow> reflib" where
  "distribution M =
     \<lparr>ParseNormalizedNamed = dist_ParseNormalizedNamed M,
      ref_WithName = dist_WithName,
      ref_WithTag = dist_WithTag,
      ref_WithDigest = dist_WithDigest\<rparr>"

text \<open>
  The strings of the examples below are ASCII strings, on which \<^verbatim>\<open>strings.ToLower\<close>
  does not reach its rune-wise branch. In the examples that branch is \<open>keep_runes\<close>.
\<close>

definition keep_runes :: "string \<Rightarrow> string" where
  "keep_runes s = s"

text \<open>A digest for the examples.\<close>

definition sample_digest :: string where
  "sample_digest =
     ''sha256:0123456789abcdef0123456789abcdef0123456789abcdef0123456789abcdef''"

section \<open>Splitting a name\<close>

lemma IndexRune_absent: "c \<notin> set s \<Longrightarrow> IndexRune s c = - 1"
  by (simp add: IndexRune_def)

lemma IndexRune_present:
  "c \<in> set s \<Longrightarrow> IndexRune s c = int (length (takeWhile (\<lambda>x. x \<noteq> c) s))"
  by (simp add: IndexRune_def)

lemma ToLower_ubuntu: "ToLower M ''ubuntu'' = ''ubuntu''"
  by code_simp

lemma splitHostname_no_slash:
  "CHR ''/'' \<notin> set name \<Longrightarrow> splitHostname name = (''index.docker.io'', ''library/'' @ name)"
  by (simp add: splitHostname_def IndexRune_absent ContainsRune_def
      DefaultRegistryHostname_def WrongRegistryHostname_def DefaultRepoPrefix_def)

text \<open>A name with a slash is its first segment, the slash, and the rest.\<close>

lemma split_at_slash:
  assumes "CHR ''/'' \<in> set name"
  shows "name = takeWhile (\<lambda>x. x \<noteq> CHR ''/'') name
                @ CHR ''/'' # drop (Suc (length (takeWhile (\<lambda>x. x \<noteq> CHR ''/'') name))) name"
proof -
  let ?h = "takeWhile (\<lambda>x. x \<noteq> CHR ''/'') name"
  let ?d = "dropWhile (\<lambda>x. x \<noteq> CHR ''/'') name"
  from assms have ne: "?d \<noteq> []" by (simp add: dropWhile_eq_Nil_conv)
  moreover have "hd ?d = CHR ''/''" using hd_dropWhile [OF ne] by simp
  ultimately have d: "?d = CHR ''/'' # tl ?d" by (cases ?d) simp_all
  have "drop (Suc (length ?h)) name = tl ?d"
    by (simp add: dropWhile_eq_drop drop_Suc tl_drop)
  with d show ?thesis by (metis takeWhile_dropWhile_id)
qed

text \<open>The four outcomes of \<open>splitHostname\<close> on a name with a slash.\<close>

lemma splitHostname_slash:
  assumes "CHR ''/'' \<in> set name"
  shows "splitHostname name =
     (let h = takeWhile (\<lambda>x. x \<noteq> CHR ''/'') name; t = drop (Suc (length h)) name
      in if \<not> hostlike h then (''index.docker.io'', name)
         else if h = ''docker.io'' \<or> h = ''index.docker.io''
         then (''index.docker.io'', if CHR ''/'' \<in> set t then t else ''library/'' @ t)
         else (h, t))"
proof -
  let ?h = "takeWhile (\<lambda>x. x \<noteq> CHR ''/'') name"
  have i: "IndexRune name CHR ''/'' = int (length ?h)"
    using assms by (rule IndexRune_present)
  have tk: "take (length ?h) name = ?h"
    by (rule takeWhile_eq_take [symmetric])
  have n1: "nat (int (length ?h) + 1) = Suc (length ?h)" by simp
  show ?thesis
    unfolding splitHostname_def i Let_def nat_int tk n1
    using assms
    by (simp add: ContainsRune_def hostlike_def
      DefaultRegistryHostname_def WrongRegistryHostname_def DefaultRepoPrefix_def)
qed

lemma splitHostname_not_alias: "fst (splitHostname name) \<noteq> ''docker.io''"
  by (simp add: splitHostname_def Let_def DefaultRegistryHostname_def WrongRegistryHostname_def
      split: prod.splits)

lemma hostlike_consts:
  "\<not> hostlike ''library''" "hostlike ''docker.io''" "hostlike ''index.docker.io''"
  by (simp_all add: hostlike_def ContainsAny_def)

text \<open>
  C1. A name-only input \<open>n\<close>, that is, a lower-case string without \<open>/\<close>, \<open>.\<close> or \<open>:\<close>
  that is not \<open>localhost\<close>, is split into the hostname \<open>index.docker.io\<close> and the remote
  name \<open>library/\<close> followed by \<open>n\<close>. (Of the conditions, the proof needs the absence of
  \<open>/\<close> only.)
\<close>

theorem splitHostname_name_only:
  assumes "ToLower M n = n" and "CHR ''/'' \<notin> set n" and "CHR ''.'' \<notin> set n"
    and "CHR '':'' \<notin> set n" and "n \<noteq> ''localhost''"
  shows "splitHostname n = (''index.docker.io'', ''library/'' @ n)"
  using assms(2)
  by (simp add: splitHostname_def IndexRune_absent ContainsRune_def
      DefaultRegistryHostname_def WrongRegistryHostname_def DefaultRepoPrefix_def)

theorem splitHostname_name_only_witness:
  "ToLower keep_runes ''ubuntu'' = ''ubuntu'' \<and> CHR ''/'' \<notin> set ''ubuntu''
   \<and> CHR ''.'' \<notin> set ''ubuntu'' \<and> CHR '':'' \<notin> set ''ubuntu''
   \<and> ''ubuntu'' \<noteq> ''localhost''
   \<and> splitHostname ''ubuntu'' = (''index.docker.io'', ''library/ubuntu'')"
  using splitHostname_name_only [of keep_runes "''ubuntu''"] ToLower_ubuntu by simp

section \<open>Normalizing a name\<close>

text \<open>On ASCII strings \<open>ToLower\<close> works byte by byte, whatever \<open>M\<close> is.\<close>

lemma ToLower_ascii: "isASCII s \<Longrightarrow> ToLower M s = map lower_byte s"
  by (simp add: ToLower_def)

lemma isASCII_append: "isASCII (a @ b) \<longleftrightarrow> isASCII a \<and> isASCII b"
  by (simp add: isASCII_def)

lemma isASCII_drop: "isASCII s \<Longrightarrow> isASCII (drop k s)"
  by (auto simp: isASCII_def list_all_iff dest: in_set_dropD)

lemma isASCII_prefix: "isASCII ''library/''"
  by code_simp

lemma lower_prefix: "map lower_byte ''library/'' = ''library/''"
  by code_simp

lemma ToLower_drop:
  assumes "isASCII s" and "ToLower M s = s"
  shows "ToLower M (drop k s) = drop k s"
proof -
  from assms have "map lower_byte s = s" by (simp add: ToLower_ascii)
  then have "map lower_byte (drop k s) = drop k s" by (simp add: drop_map [symmetric])
  then show ?thesis using assms(1) by (simp add: ToLower_ascii isASCII_drop)
qed

lemma ToLower_library:
  assumes "isASCII v" and "ToLower M v = v"
  shows "ToLower M (''library/'' @ v) = ''library/'' @ v"
proof -
  from assms have v: "map lower_byte v = v" by (simp add: ToLower_ascii)
  have "isASCII (''library/'' @ v)"
    using assms(1) isASCII_prefix by (simp only: isASCII_append)
  then have "ToLower M (''library/'' @ v) = map lower_byte (''library/'' @ v)"
    by (rule ToLower_ascii)
  also have "\<dots> = ''library/'' @ v"
    by (simp only: map_append lower_prefix v)
  finally show ?thesis .
qed

text \<open>A prefix that ends at the first slash is the first segment.\<close>

lemma HasPrefix_slash_iff:
  assumes "CHR ''/'' \<notin> set p"
  shows "HasPrefix v (p @ ''/'') \<longleftrightarrow>
           CHR ''/'' \<in> set v \<and> takeWhile (\<lambda>x. x \<noteq> CHR ''/'') v = p"
proof
  assume "HasPrefix v (p @ ''/'')"
  then have "take (length (p @ ''/'')) v = p @ ''/''" by (simp add: HasPrefix_def)
  then have v: "v = (p @ ''/'') @ drop (length (p @ ''/'')) v"
    by (metis append_take_drop_id)
  have "CHR ''/'' \<in> set v" by (subst v) simp
  moreover have "takeWhile (\<lambda>x. x \<noteq> CHR ''/'') v = p"
    using assms by (subst v) (simp add: takeWhile_append)
  ultimately show "CHR ''/'' \<in> set v \<and> takeWhile (\<lambda>x. x \<noteq> CHR ''/'') v = p" by simp
next
  assume h: "CHR ''/'' \<in> set v \<and> takeWhile (\<lambda>x. x \<noteq> CHR ''/'') v = p"
  then have "v = p @ CHR ''/'' # drop (Suc (length p)) v"
    using split_at_slash [of v] by simp
  then obtain t where "v = (p @ ''/'') @ t" by simp
  then show "HasPrefix v (p @ ''/'')" by (simp add: HasPrefix_def)
qed

lemma HasPrefix_library:
  "HasPrefix v ''library/'' \<longleftrightarrow>
     CHR ''/'' \<in> set v \<and> takeWhile (\<lambda>x. x \<noteq> CHR ''/'') v = ''library''"
  using HasPrefix_slash_iff [of "''library''" v] by simp

lemma HasPrefix_alias:
  "HasPrefix v ''docker.io/'' \<longleftrightarrow>
     CHR ''/'' \<in> set v \<and> takeWhile (\<lambda>x. x \<noteq> CHR ''/'') v = ''docker.io''"
  using HasPrefix_slash_iff [of "''docker.io''" v] by simp

lemma HasPrefix_default:
  "HasPrefix v ''index.docker.io/'' \<longleftrightarrow>
     CHR ''/'' \<in> set v \<and> takeWhile (\<lambda>x. x \<noteq> CHR ''/'') v = ''index.docker.io''"
  using HasPrefix_slash_iff [of "''index.docker.io''" v] by simp

lemma normalize_name_no_slash:
  assumes "CHR ''/'' \<notin> set v" and "ToLower M v = v" and "isASCII v"
  shows "normalize_name M v = Inr v"
proof -
  have "ToLower M (''library/'' @ v) = ''library/'' @ v"
    using assms(3) assms(2) by (rule ToLower_library)
  moreover have "HasPrefix (''library/'' @ v) ''library/''"
    by (simp add: HasPrefix_def)
  moreover have "TrimPrefix (''library/'' @ v) ''library/'' = v"
    by (simp add: TrimPrefix_def HasPrefix_def)
  ultimately show ?thesis
    unfolding normalize_name_def splitHostname_no_slash [OF assms(1)]
      DefaultRegistryHostname_def DefaultRepoPrefix_def
    by simp
qed

lemma normalize_name_hostless:
  assumes "CHR ''/'' \<in> set v" and "\<not> hostlike (takeWhile (\<lambda>x. x \<noteq> CHR ''/'') v)"
    and "ToLower M v = v"
  shows "normalize_name M v = Inr (TrimPrefix v ''library/'')"
  using assms
  by (simp add: normalize_name_def splitHostname_slash [OF assms(1)] Let_def
      DefaultRegistryHostname_def DefaultRepoPrefix_def TrimPrefix_def)

lemma normalize_name_host:
  assumes "CHR ''/'' \<in> set v" and "hostlike (takeWhile (\<lambda>x. x \<noteq> CHR ''/'') v)"
    and "takeWhile (\<lambda>x. x \<noteq> CHR ''/'') v \<noteq> ''docker.io''"
    and "takeWhile (\<lambda>x. x \<noteq> CHR ''/'') v \<noteq> ''index.docker.io''"
    and "ToLower M (drop (Suc (length (takeWhile (\<lambda>x. x \<noteq> CHR ''/'') v))) v)
           = drop (Suc (length (takeWhile (\<lambda>x. x \<noteq> CHR ''/'') v))) v"
  shows "normalize_name M v = Inr v"
  using assms
  by (simp add: normalize_name_def splitHostname_slash [OF assms(1)] Let_def
      DefaultRegistryHostname_def)

text \<open>Under a default hostname written out, the result is shorter than the name.\<close>

lemma normalize_name_default_host:
  assumes "CHR ''/'' \<in> set v"
    and "takeWhile (\<lambda>x. x \<noteq> CHR ''/'') v = ''docker.io''
         \<or> takeWhile (\<lambda>x. x \<noteq> CHR ''/'') v = ''index.docker.io''"
    and "normalize_name M v = Inr w"
  shows "length w < length v"
proof -
  let ?h = "takeWhile (\<lambda>x. x \<noteq> CHR ''/'') v"
  let ?t = "drop (Suc (length ?h)) v"
  have hl: "hostlike ?h" using assms(2) hostlike_consts by auto
  have sp: "splitHostname v =
              (''index.docker.io'', if CHR ''/'' \<in> set ?t then ?t else ''library/'' @ ?t)"
    using assms(2) hl by (simp add: splitHostname_slash [OF assms(1)] Let_def)
  have "length w \<le> length ?t"
    using assms(3)
    by (auto simp: normalize_name_def sp DefaultRegistryHostname_def DefaultRepoPrefix_def
        TrimPrefix_def HasPrefix_def split: if_splits)
  moreover have "length ?t < length v" using assms(1) by (cases v) auto
  ultimately show ?thesis by simp
qed

text \<open>The lower-case ASCII names that \<open>normalize_name\<close> leaves as they are.\<close>

lemma normalize_name_fixpoint:
  assumes "ToLower M v = v" and "isASCII v"
  shows "normalize_name M v = Inr v \<longleftrightarrow>
           \<not> HasPrefix v ''library/'' \<and> \<not> HasPrefix v ''docker.io/''
           \<and> \<not> HasPrefix v ''index.docker.io/''"
proof (cases "CHR ''/'' \<in> set v")
  case False
  then show ?thesis
    using normalize_name_no_slash [OF False assms]
    by (simp add: HasPrefix_library HasPrefix_alias HasPrefix_default)
next
  case True
  let ?h = "takeWhile (\<lambda>x. x \<noteq> CHR ''/'') v"
  show ?thesis
  proof (cases "hostlike ?h")
    case False
    then have "?h \<noteq> ''docker.io''" "?h \<noteq> ''index.docker.io''"
      using hostlike_consts by auto
    moreover have "HasPrefix v ''library/'' \<Longrightarrow> TrimPrefix v ''library/'' \<noteq> v"
      by (auto simp: TrimPrefix_def HasPrefix_def dest: arg_cong [where f = length])
    moreover have "\<not> HasPrefix v ''library/'' \<Longrightarrow> TrimPrefix v ''library/'' = v"
      by (simp add: TrimPrefix_def)
    ultimately show ?thesis
      using normalize_name_hostless [OF True False assms(1)] True
      by (auto simp: HasPrefix_library HasPrefix_alias HasPrefix_default)
  next
    case hl: True
    show ?thesis
    proof (cases "?h = ''docker.io'' \<or> ?h = ''index.docker.io''")
      case True
      have "normalize_name M v \<noteq> Inr v"
        using normalize_name_default_host [OF \<open>CHR ''/'' \<in> set v\<close> True, where w = v]
        by auto
      then show ?thesis
        using True \<open>CHR ''/'' \<in> set v\<close>
        by (auto simp: HasPrefix_library HasPrefix_alias HasPrefix_default)
    next
      case False
      have "ToLower M (drop (Suc (length ?h)) v) = drop (Suc (length ?h)) v"
        using assms(2) assms(1) by (rule ToLower_drop)
      then have "normalize_name M v = Inr v"
        using normalize_name_host [OF \<open>CHR ''/'' \<in> set v\<close> hl] False by simp
      moreover have "?h \<noteq> ''library''" using hl hostlike_consts by auto
      ultimately show ?thesis
        using False by (simp add: HasPrefix_library HasPrefix_alias HasPrefix_default)
    qed
  qed
qed

lemma isASCII_remoteName:
  assumes "isASCII x"
  shows "isASCII (snd (splitHostname x))"
proof (cases "CHR ''/'' \<in> set x")
  case False
  then have e: "snd (splitHostname x) = ''library/'' @ x"
    by (simp add: splitHostname_no_slash)
  show ?thesis
    unfolding e isASCII_append using assms isASCII_prefix by blast
next
  case True
  have "isASCII (''library/'' @ drop k x)" for k
    using assms isASCII_prefix isASCII_drop [of x k] by (simp only: isASCII_append)
  then show ?thesis
    using assms isASCII_drop [of x] by (simp add: splitHostname_slash [OF True] Let_def)
qed

text \<open>
  What a successful \<open>normalize_name\<close> returns on an ASCII name: the name itself, or a
  lower-case ASCII string.
\<close>

lemma normalize_name_result:
  assumes "normalize_name M x = Inr v" and "isASCII x"
  shows "(v = x \<and> fst (splitHostname x) \<noteq> ''index.docker.io'')
         \<or> (ToLower M v = v \<and> isASCII v)"
proof -
  obtain h r where sp: "splitHostname x = (h, r)" by (cases "splitHostname x")
  from assms(1) sp have lr: "ToLower M r = r"
    by (auto simp: normalize_name_def split: if_splits)
  from assms(2) sp have ar: "isASCII r"
    using isASCII_remoteName [of x] by simp
  show ?thesis
  proof (cases "h = ''index.docker.io''")
    case True
    with assms(1) sp have "v = TrimPrefix r ''library/'' \<or> v = r"
      by (auto simp: normalize_name_def DefaultRegistryHostname_def DefaultRepoPrefix_def
          split: if_splits)
    then have "ToLower M v = v \<and> isASCII v"
      using lr ar by (auto simp: TrimPrefix_def ToLower_drop isASCII_drop)
    then show ?thesis by simp
  next
    case False
    with assms(1) sp show ?thesis
      by (auto simp: normalize_name_def DefaultRegistryHostname_def split: if_splits)
  qed
qed

lemma explicit_host_no_prefix:
  assumes "fst (splitHostname x) \<noteq> ''index.docker.io''"
  shows "\<not> HasPrefix x ''library/'' \<and> \<not> HasPrefix x ''docker.io/''
         \<and> \<not> HasPrefix x ''index.docker.io/''"
proof (cases "CHR ''/'' \<in> set x")
  case False
  then show ?thesis by (simp add: HasPrefix_library HasPrefix_alias HasPrefix_default)
next
  case True
  let ?h = "takeWhile (\<lambda>x. x \<noteq> CHR ''/'') x"
  from assms have "hostlike ?h \<and> ?h \<noteq> ''docker.io'' \<and> ?h \<noteq> ''index.docker.io''"
    by (auto simp: splitHostname_slash [OF True] Let_def split: if_splits)
  moreover from this have "?h \<noteq> ''library''" using hostlike_consts by auto
  ultimately show ?thesis by (simp add: HasPrefix_library HasPrefix_alias HasPrefix_default)
qed

text \<open>
  The ASCII names on which a second call of \<open>normalize_name\<close> returns the result of
  the first: those whose result does not begin with \<open>library/\<close>, \<open>docker.io/\<close> or
  \<open>index.docker.io/\<close>.
\<close>

lemma normalize_name_second_call:
  assumes "normalize_name M x = Inr v" and "isASCII x"
  shows "normalize_name M v = Inr v \<longleftrightarrow>
           \<not> HasPrefix v ''library/'' \<and> \<not> HasPrefix v ''docker.io/''
           \<and> \<not> HasPrefix v ''index.docker.io/''"
proof -
  from normalize_name_result [OF assms]
  consider "v = x" "fst (splitHostname x) \<noteq> ''index.docker.io''"
    | "ToLower M v = v" "isASCII v"
    by blast
  then show ?thesis
  proof cases
    case 1
    then show ?thesis using assms(1) explicit_host_no_prefix [of x] by simp
  next
    case 2
    then show ?thesis by (rule normalize_name_fixpoint)
  qed
qed

lemma normalize_alias_ubuntu: "normalize_name M ''docker.io/library/ubuntu'' = Inr ''ubuntu''"
  by code_simp

text \<open>
  C3. \<open>normalize_name\<close> is to be idempotent: a second call on a successful result
  returns that result. It is not on \<open>library/library/foo\<close>, a path of three segments
  under the default hostname. \<open>normalize_name\<close> strips the \<open>library/\<close> prefix whatever
  follows it, where \<open>splitHostname\<close> adds the prefix to a single segment only: the first
  call returns \<open>library/foo\<close>, which \<open>splitHostname\<close> reads as another repository than
  the one given, and the second call returns \<open>foo\<close>.
\<close>

theorem normalize_name_not_idempotent:
  "normalize_name M ''library/library/foo'' = Inr ''library/foo''
   \<and> normalize_name M ''docker.io/library/library/foo'' = Inr ''library/foo''
   \<and> normalize_name M ''library/foo'' = Inr ''foo''
   \<and> splitHostname ''library/library/foo'' = (''index.docker.io'', ''library/library/foo'')
   \<and> splitHostname ''library/foo'' = (''index.docker.io'', ''library/foo'')"
  by code_simp

lemma normalize_name_not_lower:
  "ToLower M (snd (splitHostname name)) \<noteq> snd (splitHostname name) \<Longrightarrow>
     normalize_name M name = Inl ErrNotLowercase"
  by (cases "splitHostname name") (simp add: normalize_name_def)

text \<open>
  On a name with a byte from \<open>0x80\<close> the verdict is that of the rune-wise branch: a
  single segment that this branch changes, such as the bytes \<open>0xC3 0x89\<close> (an
  upper-case accented letter in UTF-8), is rejected.
\<close>

lemma normalize_name_runes:
  assumes "CHR ''/'' \<notin> set x" and "\<not> isASCII x"
    and "M (''library/'' @ x) \<noteq> ''library/'' @ x"
  shows "normalize_name M x = Inl ErrNotLowercase"
proof -
  have sp: "snd (splitHostname x) = ''library/'' @ x"
    using assms(1) by (simp add: splitHostname_no_slash)
  have "\<not> isASCII (''library/'' @ x)"
    using assms(2) by (simp only: isASCII_append) simp
  then have "ToLower M (''library/'' @ x) = M (''library/'' @ x)"
    by (simp only: ToLower_def if_False)
  with assms(3) have "ToLower M (snd (splitHostname x)) \<noteq> snd (splitHostname x)"
    by (simp only: sp) simp
  then show ?thesis by (rule normalize_name_not_lower)
qed

lemma WithName_not_lower:
  "ToLower M (snd (splitHostname name)) \<noteq> snd (splitHostname name) \<Longrightarrow>
     WithName M L name = Inl ErrNotLowercase"
  by (simp add: WithName_def normalize_name_not_lower)

section \<open>Tags, digests and the default tag\<close>

lemma WithDefaultTag_fixed: "\<not> IsNameOnly r \<Longrightarrow> WithDefaultTag L r = r"
  by (simp add: WithDefaultTag_def)

lemma WithDefaultTag_tagged:
  "ref_WithTag L r DefaultTag = Inr v \<Longrightarrow> IsNameOnly r \<Longrightarrow>
     WithDefaultTag L r = Some (taggedRef v)"
  by (simp add: WithDefaultTag_def WithTag_def)

lemma WithDefaultTag_Some:
  "WithDefaultTag L (Some n0) = Some n \<Longrightarrow>
     (\<exists>x. n = taggedRef x) \<or> (\<exists>x. n = canonicalRef x \<and> n0 = n)"
  by (cases n0)
    (auto simp: WithDefaultTag_def IsNameOnly_def WithTag_def split: sum.splits if_splits)

text \<open>The instance accepts the default tag on every name.\<close>

lemma dist_tag_latest: "dist_tag DefaultTag"
  by code_simp

lemma distribution_accepts_default_tag:
  "\<exists>u. ref_WithTag (distribution M) (Some n) DefaultTag = Inr u"
  by (simp add: distribution_def dist_WithTag_def dist_tag_latest)

text \<open>The instance's combinators keep the name and set the tag or digest given.\<close>

lemma distribution_WithTag_keeps:
  "ref_WithTag (distribution M) (Some x) s = Inr v \<Longrightarrow>
     ref_Name v = named_Name x \<and> ref_Tag v = Some s"
  by (auto simp: distribution_def dist_WithTag_def dist_value_def split: if_splits)

lemma distribution_WithDigest_keeps:
  "ref_WithDigest (distribution M) (Some x) s = Inr v \<Longrightarrow>
     ref_Name v = named_Name x \<and> ref_Digest v = Some s"
  by (auto simp: distribution_def dist_WithDigest_def dist_value_def split: if_splits)

text \<open>Every accessor but \<open>String\<close> is a function of the name.\<close>

lemma accessors_of_Name:
  "named_Name b = named_Name n \<Longrightarrow>
     FullName b = FullName n \<and> Hostname b = Hostname n \<and> RemoteName b = RemoteName n"
  by (simp add: FullName_def Hostname_def RemoteName_def)

text \<open>
  C6, as amended. After \<open>WithTag\<close> and \<open>WithDigest\<close> in sequence, in either order, the
  value carries the capability applied last only: it implements \<open>Canonical\<close> and not
  \<open>NamedTagged\<close> after \<open>WithDigest\<close>, \<open>NamedTagged\<close> and not \<open>Canonical\<close> after
  \<open>WithTag\<close>. No accessor other than \<open>String\<close> shows the former: for every
  \<^verbatim>\<open>reference\<close> package whose \<^verbatim>\<open>WithTag\<close> and \<^verbatim>\<open>WithDigest\<close> keep the name and
  set the tag or digest they are given, \<open>Name\<close>, \<open>FullName\<close>, \<open>Hostname\<close> and
  \<open>RemoteName\<close> are those of \<open>n\<close>, and \<open>Digest\<close> (or \<open>Tag\<close>) returns the value
  given last. \<open>String\<close> is the exception: it is what the package prints for the value
  it built from a name that still carried the former capability.
\<close>

theorem last_capability_only:
  "(\<forall>a b. WithTag L (Some n) t = Inr a \<and> WithDigest L (Some a) d = Inr b \<longrightarrow>
        implements_Canonical (Some b) \<and> \<not> implements_NamedTagged (Some b))
   \<and> (\<forall>a b. WithDigest L (Some n) d = Inr a \<and> WithTag L (Some a) t = Inr b \<longrightarrow>
        implements_NamedTagged (Some b) \<and> \<not> implements_Canonical (Some b))
   \<and> ((\<forall>x s v. ref_WithTag L (Some x) s = Inr v \<longrightarrow>
                 ref_Name v = named_Name x \<and> ref_Tag v = Some s)
        \<and> (\<forall>x s v. ref_WithDigest L (Some x) s = Inr v \<longrightarrow>
                 ref_Name v = named_Name x \<and> ref_Digest v = Some s)
      \<longrightarrow> (\<forall>a b. WithTag L (Some n) t = Inr a \<and> WithDigest L (Some a) d = Inr b \<longrightarrow>
              named_Name b = named_Name n \<and> FullName b = FullName n
              \<and> Hostname b = Hostname n \<and> RemoteName b = RemoteName n
              \<and> canonicalRef_Digest (embedded b) = Inr d)
          \<and> (\<forall>a b. WithDigest L (Some n) d = Inr a \<and> WithTag L (Some a) t = Inr b \<longrightarrow>
              named_Name b = named_Name n \<and> FullName b = FullName n
              \<and> Hostname b = Hostname n \<and> RemoteName b = RemoteName n
              \<and> taggedRef_Tag (embedded b) = Inr t))"
proof (intro conjI impI allI)
  fix a b
  assume "WithTag L (Some n) t = Inr a \<and> WithDigest L (Some a) d = Inr b"
  then show "implements_Canonical (Some b)" "\<not> implements_NamedTagged (Some b)"
    by (auto simp: WithDigest_def split: sum.splits)
next
  fix a b
  assume "WithDigest L (Some n) d = Inr a \<and> WithTag L (Some a) t = Inr b"
  then show "implements_NamedTagged (Some b)" "\<not> implements_Canonical (Some b)"
    by (auto simp: WithTag_def split: sum.splits)
next
  fix a b
  assume lib: "(\<forall>x s v. ref_WithTag L (Some x) s = Inr v \<longrightarrow>
                 ref_Name v = named_Name x \<and> ref_Tag v = Some s)
        \<and> (\<forall>x s v. ref_WithDigest L (Some x) s = Inr v \<longrightarrow>
                 ref_Name v = named_Name x \<and> ref_Digest v = Some s)"
    and seq: "WithTag L (Some n) t = Inr a \<and> WithDigest L (Some a) d = Inr b"
  from seq obtain va where va: "ref_WithTag L (Some n) t = Inr va" "a = taggedRef va"
    by (auto simp: WithTag_def split: sum.splits)
  from seq obtain vb where vb: "ref_WithDigest L (Some a) d = Inr vb" "b = canonicalRef vb"
    by (auto simp: WithDigest_def split: sum.splits)
  from lib va have "named_Name a = named_Name n" by (simp add: named_Name_def)
  moreover from lib vb have "named_Name b = named_Name a" "ref_Digest vb = Some d"
    by (simp_all add: named_Name_def)
  ultimately have nm: "named_Name b = named_Name n" and dg: "ref_Digest vb = Some d"
    by simp_all
  show "named_Name b = named_Name n" by (rule nm)
  show "FullName b = FullName n" "Hostname b = Hostname n" "RemoteName b = RemoteName n"
    using accessors_of_Name [OF nm] by simp_all
  show "canonicalRef_Digest (embedded b) = Inr d"
    using vb(2) dg by (simp add: canonicalRef_Digest_def)
next
  fix a b
  assume lib: "(\<forall>x s v. ref_WithTag L (Some x) s = Inr v \<longrightarrow>
                 ref_Name v = named_Name x \<and> ref_Tag v = Some s)
        \<and> (\<forall>x s v. ref_WithDigest L (Some x) s = Inr v \<longrightarrow>
                 ref_Name v = named_Name x \<and> ref_Digest v = Some s)"
    and seq: "WithDigest L (Some n) d = Inr a \<and> WithTag L (Some a) t = Inr b"
  from seq obtain va where va: "ref_WithDigest L (Some n) d = Inr va" "a = canonicalRef va"
    by (auto simp: WithDigest_def split: sum.splits)
  from seq obtain vb where vb: "ref_WithTag L (Some a) t = Inr vb" "b = taggedRef vb"
    by (auto simp: WithTag_def split: sum.splits)
  from lib va have "named_Name a = named_Name n" by (simp add: named_Name_def)
  moreover from lib vb have "named_Name b = named_Name a" "ref_Tag vb = Some t"
    by (simp_all add: named_Name_def)
  ultimately have nm: "named_Name b = named_Name n" and tg: "ref_Tag vb = Some t"
    by simp_all
  show "named_Name b = named_Name n" by (rule nm)
  show "FullName b = FullName n" "Hostname b = Hostname n" "RemoteName b = RemoteName n"
    using accessors_of_Name [OF nm] by simp_all
  show "taggedRef_Tag (embedded b) = Inr t"
    using vb(2) tg by (simp add: taggedRef_Tag_def)
qed

lemma WithTag_then_WithDigest_ubuntu:
  "WithTag (distribution keep_runes)
     (Some (namedRef \<lparr>ref_Name = ''ubuntu'', ref_String = ''ubuntu'',
                      ref_Tag = None, ref_Digest = None\<rparr>)) ''v1''
   = Inr (taggedRef \<lparr>ref_Name = ''ubuntu'', ref_String = ''ubuntu:v1'',
                     ref_Tag = Some ''v1'', ref_Digest = None\<rparr>)
   \<and> WithDigest (distribution keep_runes)
       (Some (taggedRef \<lparr>ref_Name = ''ubuntu'', ref_String = ''ubuntu:v1'',
                         ref_Tag = Some ''v1'', ref_Digest = None\<rparr>))
       sample_digest
   = Inr (canonicalRef
       \<lparr>ref_Name = ''ubuntu'',
        ref_String = (''ubuntu:v1@'' @ sample_digest),
        ref_Tag = Some ''v1'',
        ref_Digest = Some sample_digest\<rparr>)"
  by code_simp

lemma WithDigest_then_WithTag_ubuntu:
  "WithDigest (distribution keep_runes)
     (Some (namedRef \<lparr>ref_Name = ''ubuntu'', ref_String = ''ubuntu'',
                      ref_Tag = None, ref_Digest = None\<rparr>))
     sample_digest
   = Inr (canonicalRef
       \<lparr>ref_Name = ''ubuntu'',
        ref_String = (''ubuntu@'' @ sample_digest),
        ref_Tag = None,
        ref_Digest = Some sample_digest\<rparr>)
   \<and> WithTag (distribution keep_runes)
       (Some (canonicalRef
          \<lparr>ref_Name = ''ubuntu'',
           ref_String = (''ubuntu@'' @ sample_digest),
           ref_Tag = None,
           ref_Digest = Some sample_digest\<rparr>))
       ''v1''
   = Inr (taggedRef
       \<lparr>ref_Name = ''ubuntu'',
        ref_String = (''ubuntu:v1@'' @ sample_digest),
        ref_Tag = Some ''v1'',
        ref_Digest = Some sample_digest\<rparr>)"
  by code_simp

theorem last_capability_only_witness:
  "WithTag (distribution keep_runes)
     (Some (namedRef \<lparr>ref_Name = ''ubuntu'', ref_String = ''ubuntu'',
                      ref_Tag = None, ref_Digest = None\<rparr>)) ''v1''
   = Inr (taggedRef \<lparr>ref_Name = ''ubuntu'', ref_String = ''ubuntu:v1'',
                     ref_Tag = Some ''v1'', ref_Digest = None\<rparr>)
   \<and> WithDigest (distribution keep_runes)
       (Some (taggedRef \<lparr>ref_Name = ''ubuntu'', ref_String = ''ubuntu:v1'',
                         ref_Tag = Some ''v1'', ref_Digest = None\<rparr>))
       sample_digest
   = Inr (canonicalRef
       \<lparr>ref_Name = ''ubuntu'', ref_String = (''ubuntu:v1@'' @ sample_digest),
        ref_Tag = Some ''v1'', ref_Digest = Some sample_digest\<rparr>)
   \<and> implements_Canonical
       (Some (canonicalRef
          \<lparr>ref_Name = ''ubuntu'', ref_String = (''ubuntu:v1@'' @ sample_digest),
           ref_Tag = Some ''v1'', ref_Digest = Some sample_digest\<rparr>))
   \<and> \<not> implements_NamedTagged
       (Some (canonicalRef
          \<lparr>ref_Name = ''ubuntu'', ref_String = (''ubuntu:v1@'' @ sample_digest),
           ref_Tag = Some ''v1'', ref_Digest = Some sample_digest\<rparr>))
   \<and> named_Name
       (canonicalRef
          \<lparr>ref_Name = ''ubuntu'', ref_String = (''ubuntu:v1@'' @ sample_digest),
           ref_Tag = Some ''v1'', ref_Digest = Some sample_digest\<rparr>) = ''ubuntu''
   \<and> canonicalRef_Digest
       \<lparr>ref_Name = ''ubuntu'', ref_String = (''ubuntu:v1@'' @ sample_digest),
        ref_Tag = Some ''v1'', ref_Digest = Some sample_digest\<rparr> = Inr sample_digest
   \<and> WithDigest (distribution keep_runes)
       (Some (namedRef \<lparr>ref_Name = ''ubuntu'', ref_String = ''ubuntu'',
                        ref_Tag = None, ref_Digest = None\<rparr>)) sample_digest
   = Inr (canonicalRef
       \<lparr>ref_Name = ''ubuntu'', ref_String = (''ubuntu@'' @ sample_digest),
        ref_Tag = None, ref_Digest = Some sample_digest\<rparr>)
   \<and> WithTag (distribution keep_runes)
       (Some (canonicalRef
          \<lparr>ref_Name = ''ubuntu'', ref_String = (''ubuntu@'' @ sample_digest),
           ref_Tag = None, ref_Digest = Some sample_digest\<rparr>)) ''v1''
   = Inr (taggedRef
       \<lparr>ref_Name = ''ubuntu'', ref_String = (''ubuntu:v1@'' @ sample_digest),
        ref_Tag = Some ''v1'', ref_Digest = Some sample_digest\<rparr>)
   \<and> implements_NamedTagged
       (Some (taggedRef
          \<lparr>ref_Name = ''ubuntu'', ref_String = (''ubuntu:v1@'' @ sample_digest),
           ref_Tag = Some ''v1'', ref_Digest = Some sample_digest\<rparr>))
   \<and> \<not> implements_Canonical
       (Some (taggedRef
          \<lparr>ref_Name = ''ubuntu'', ref_String = (''ubuntu:v1@'' @ sample_digest),
           ref_Tag = Some ''v1'', ref_Digest = Some sample_digest\<rparr>))
   \<and> taggedRef_Tag
       \<lparr>ref_Name = ''ubuntu'', ref_String = (''ubuntu:v1@'' @ sample_digest),
        ref_Tag = Some ''v1'', ref_Digest = Some sample_digest\<rparr> = Inr ''v1''"
  using last_capability_only
    [of "distribution keep_runes"
        "namedRef \<lparr>ref_Name = ''ubuntu'', ref_String = ''ubuntu'',
                   ref_Tag = None, ref_Digest = None\<rparr>"
        "''v1''" sample_digest]
    distribution_WithTag_keeps [of keep_runes] distribution_WithDigest_keeps [of keep_runes]
    WithTag_then_WithDigest_ubuntu WithDigest_then_WithTag_ubuntu
  by (simp add: named_Name_def)

text \<open>
  The specification also excludes every trace of the former capability. With the
  instance, whose \<open>WithDigest\<close> keeps the tag of a tagged name, a name tagged \<open>v1\<close> and
  then given a digest prints both: the tag is read off \<open>String\<close>.
\<close>

theorem last_capability_String_counterexample:
  "WithTag (distribution keep_runes)
     (Some (namedRef \<lparr>ref_Name = ''ubuntu'', ref_String = ''ubuntu'',
                      ref_Tag = None, ref_Digest = None\<rparr>)) ''v1''
   = Inr (taggedRef \<lparr>ref_Name = ''ubuntu'', ref_String = ''ubuntu:v1'',
                     ref_Tag = Some ''v1'', ref_Digest = None\<rparr>)
   \<and> map_sum id named_String
       (WithDigest (distribution keep_runes)
          (Some (taggedRef \<lparr>ref_Name = ''ubuntu'', ref_String = ''ubuntu:v1'',
                            ref_Tag = Some ''v1'', ref_Digest = None\<rparr>))
          sample_digest)
     = Inr (''ubuntu:v1@'' @ sample_digest)"
  by code_simp

text \<open>
  C7. \<open>WithDefaultTag\<close> returns a reference that is tagged or canonical as it is, and
  applying it twice is applying it once, for every reference on which the \<^verbatim>\<open>reference\<close>
  package accepts the default tag (the one call whose error \<open>WithDefaultTag\<close> drops).
\<close>

theorem WithDefaultTag_idempotent:
  "((IsNameOnly r \<longrightarrow> (\<exists>v. ref_WithTag L r DefaultTag = Inr v)) \<longrightarrow>
      WithDefaultTag L (WithDefaultTag L r) = WithDefaultTag L r)
   \<and> (\<not> IsNameOnly r \<longrightarrow> WithDefaultTag L r = r)"
proof (intro conjI impI)
  assume h: "IsNameOnly r \<longrightarrow> (\<exists>v. ref_WithTag L r DefaultTag = Inr v)"
  show "WithDefaultTag L (WithDefaultTag L r) = WithDefaultTag L r"
  proof (cases "IsNameOnly r")
    case True
    with h obtain v where "ref_WithTag L r DefaultTag = Inr v" by blast
    with True have "WithDefaultTag L r = Some (taggedRef v)"
      by (simp add: WithDefaultTag_tagged)
    then show ?thesis by (simp add: WithDefaultTag_fixed IsNameOnly_def)
  next
    case False
    then show ?thesis by (simp add: WithDefaultTag_fixed)
  qed
next
  assume "\<not> IsNameOnly r"
  then show "WithDefaultTag L r = r" by (rule WithDefaultTag_fixed)
qed

lemma WithDefaultTag_ubuntu:
  "IsNameOnly (Some (namedRef \<lparr>ref_Name = ''ubuntu'', ref_String = ''ubuntu'',
                               ref_Tag = None, ref_Digest = None\<rparr>))
   \<and> ref_WithTag (distribution keep_runes)
       (Some (namedRef \<lparr>ref_Name = ''ubuntu'', ref_String = ''ubuntu'',
                        ref_Tag = None, ref_Digest = None\<rparr>)) DefaultTag
     = Inr \<lparr>ref_Name = ''ubuntu'', ref_String = ''ubuntu:latest'',
            ref_Tag = Some ''latest'', ref_Digest = None\<rparr>
   \<and> WithDefaultTag (distribution keep_runes)
       (Some (namedRef \<lparr>ref_Name = ''ubuntu'', ref_String = ''ubuntu'',
                        ref_Tag = None, ref_Digest = None\<rparr>))
     = Some (taggedRef \<lparr>ref_Name = ''ubuntu'', ref_String = ''ubuntu:latest'',
                        ref_Tag = Some ''latest'', ref_Digest = None\<rparr>)"
  by code_simp

theorem WithDefaultTag_idempotent_witness:
  "IsNameOnly (Some (namedRef \<lparr>ref_Name = ''ubuntu'', ref_String = ''ubuntu'',
                               ref_Tag = None, ref_Digest = None\<rparr>))
   \<and> ref_WithTag (distribution keep_runes)
       (Some (namedRef \<lparr>ref_Name = ''ubuntu'', ref_String = ''ubuntu'',
                        ref_Tag = None, ref_Digest = None\<rparr>)) DefaultTag
     = Inr \<lparr>ref_Name = ''ubuntu'', ref_String = ''ubuntu:latest'',
            ref_Tag = Some ''latest'', ref_Digest = None\<rparr>
   \<and> WithDefaultTag (distribution keep_runes)
       (WithDefaultTag (distribution keep_runes)
          (Some (namedRef \<lparr>ref_Name = ''ubuntu'', ref_String = ''ubuntu'',
                           ref_Tag = None, ref_Digest = None\<rparr>)))
     = Some (taggedRef \<lparr>ref_Name = ''ubuntu'', ref_String = ''ubuntu:latest'',
                        ref_Tag = Some ''latest'', ref_Digest = None\<rparr>)
   \<and> \<not> IsNameOnly (Some (canonicalRef \<lparr>ref_Name = ''debian'',
                                       ref_String = ''debian@'' @ sample_digest,
                                       ref_Tag = None, ref_Digest = Some sample_digest\<rparr>))
   \<and> WithDefaultTag (distribution keep_runes)
       (Some (canonicalRef \<lparr>ref_Name = ''debian'', ref_String = ''debian@'' @ sample_digest,
                            ref_Tag = None, ref_Digest = Some sample_digest\<rparr>))
     = Some (canonicalRef \<lparr>ref_Name = ''debian'', ref_String = ''debian@'' @ sample_digest,
                           ref_Tag = None, ref_Digest = Some sample_digest\<rparr>)"
  using WithDefaultTag_idempotent
    [of "Some (namedRef \<lparr>ref_Name = ''ubuntu'', ref_String = ''ubuntu'',
                         ref_Tag = None, ref_Digest = None\<rparr>)" "distribution keep_runes"]
    WithDefaultTag_idempotent
    [of "Some (canonicalRef \<lparr>ref_Name = ''debian'', ref_String = ''debian@'' @ sample_digest,
                             ref_Tag = None, ref_Digest = Some sample_digest\<rparr>)"
        "distribution keep_runes"]
    WithDefaultTag_ubuntu
  by (simp add: IsNameOnly_def)

section \<open>Parse\<close>

lemma Reference_Tag_drop: "Reference_Tag r = drop 1 (tag r)"
  by (cases "tag r") (simp_all add: Reference_Tag_def)

text \<open>What a successful \<open>Parse\<close> has gone through, and the three shapes of its suffix.\<close>

lemma Parse_Inr:
  assumes "Parse M L remote = Inr r"
  shows "\<exists>n0. ParseNamed M L (clean remote) = Inr n0 \<and> named r = WithDefaultTag L (Some n0)
     \<and> ((\<exists>x t. named r = Some (taggedRef x) \<and> ref_Tag x = Some t \<and> tag r = '':'' @ t)
        \<or> (\<exists>x d. named r = Some (canonicalRef x) \<and> ref_Digest x = Some d
                    \<and> tag r = ''@'' @ d)
        \<or> (named r = None \<and> tag r = []))"
proof -
  from assms obtain n0 where n0: "ParseNamed M L (clean remote) = Inr n0"
    by (auto simp: Parse_def split: sum.splits)
  let ?n = "WithDefaultTag L (Some n0)"
  show ?thesis
  proof (cases ?n)
    case None
    with assms n0 show ?thesis by (auto simp: Parse_def)
  next
    case (Some n)
    from WithDefaultTag_Some [OF Some]
    consider x where "n = taggedRef x" | x where "n = canonicalRef x"
      by blast
    then show ?thesis
    proof cases
      case 1
      with assms n0 Some show ?thesis
        by (auto simp: Parse_def taggedRef_Tag_def split: option.splits)
    next
      case 2
      with assms n0 Some show ?thesis
        by (auto simp: Parse_def canonicalRef_Digest_def split: option.splits)
    qed
  qed
qed

lemma Parse_ubuntu:
  "Parse keep_runes (distribution keep_runes) ''ubuntu''
   = Inr \<lparr>named = Some (taggedRef \<lparr>ref_Name = ''ubuntu'', ref_String = ''ubuntu:latest'',
                                    ref_Tag = Some ''latest'', ref_Digest = None\<rparr>),
          tag = '':latest''\<rparr>"
  by code_simp

text \<open>
  C2, as amended. The suffix of a reference that \<open>Parse\<close> returns is \<open>:\<close> and the tag,
  \<open>@\<close> and the digest, or empty, and \<open>Tag\<close> returns the suffix with its first
  character removed: the tag when the suffix begins with \<open>:\<close>, the digest when it
  begins with \<open>@\<close>, the empty string when the suffix is empty. \<open>Tag\<close> is the empty
  string exactly when the suffix has at most one character.
\<close>

theorem Reference_Tag_of_Parse:
  assumes "Parse M L remote = Inr r"
  shows "((\<exists>x t. named r = Some (taggedRef x) \<and> ref_Tag x = Some t
                \<and> tag r = '':'' @ t \<and> Reference_Tag r = t)
        \<or> (\<exists>x d. named r = Some (canonicalRef x) \<and> ref_Digest x = Some d
                \<and> tag r = ''@'' @ d \<and> Reference_Tag r = d)
        \<or> (named r = None \<and> tag r = [] \<and> Reference_Tag r = []))
       \<and> Reference_Tag r = drop 1 (tag r)
       \<and> (Reference_Tag r = [] \<longleftrightarrow> length (tag r) \<le> 1)"
proof (intro conjI)
  show "(\<exists>x t. named r = Some (taggedRef x) \<and> ref_Tag x = Some t
                \<and> tag r = '':'' @ t \<and> Reference_Tag r = t)
        \<or> (\<exists>x d. named r = Some (canonicalRef x) \<and> ref_Digest x = Some d
                \<and> tag r = ''@'' @ d \<and> Reference_Tag r = d)
        \<or> (named r = None \<and> tag r = [] \<and> Reference_Tag r = [])"
    using Parse_Inr [OF assms] by (auto simp: Reference_Tag_drop)
  show "Reference_Tag r = drop 1 (tag r)" by (rule Reference_Tag_drop)
  show "Reference_Tag r = [] \<longleftrightarrow> length (tag r) \<le> 1"
    by (simp add: Reference_Tag_drop)
qed

theorem Reference_Tag_of_Parse_witness:
  "Parse keep_runes (distribution keep_runes) ''ubuntu''
   = Inr \<lparr>named = Some (taggedRef \<lparr>ref_Name = ''ubuntu'', ref_String = ''ubuntu:latest'',
                                    ref_Tag = Some ''latest'', ref_Digest = None\<rparr>),
          tag = '':latest''\<rparr>
   \<and> Reference_Tag
       \<lparr>named = Some (taggedRef \<lparr>ref_Name = ''ubuntu'', ref_String = ''ubuntu:latest'',
                                  ref_Tag = Some ''latest'', ref_Digest = None\<rparr>),
        tag = '':latest''\<rparr> = ''latest''"
  using Reference_Tag_of_Parse [OF Parse_ubuntu] Parse_ubuntu by simp

text \<open>
  The specification has \<open>Tag\<close> return the empty string on a digest suffix. A
  reference by digest is parsed with the suffix \<open>@\<close> and the digest, and \<open>Tag\<close> returns
  the digest.
\<close>

theorem Reference_Tag_digest_counterexample:
  "Parse keep_runes (distribution keep_runes) (''debian@'' @ sample_digest)
   = Inr \<lparr>named = Some (canonicalRef
                    \<lparr>ref_Name = ''debian'', ref_String = ''debian@'' @ sample_digest,
                     ref_Tag = None, ref_Digest = Some sample_digest\<rparr>),
          tag = ''@'' @ sample_digest\<rparr>
   \<and> Reference_Tag
       \<lparr>named = Some (canonicalRef
                    \<lparr>ref_Name = ''debian'', ref_String = ''debian@'' @ sample_digest,
                     ref_Tag = None, ref_Digest = Some sample_digest\<rparr>),
        tag = ''@'' @ sample_digest\<rparr>
     = ''sha256:0123456789abcdef0123456789abcdef0123456789abcdef0123456789abcdef''"
  by code_simp

lemma HasPrefix_append: "HasPrefix (p @ s) p"
  by (simp add: HasPrefix_def)

lemma Replace1_prefix: "p \<noteq> [] \<Longrightarrow> Replace1 (p @ s) p new = new @ s"
  by (cases p) (simp_all add: HasPrefix_def)

lemma clean_http: "clean (''http://'' @ s) = s"
  using Replace1_prefix [of "''http://''" s "[]"] HasPrefix_append [of "''http://''" s]
  by (simp add: clean_def)

lemma clean_https: "clean (''https://'' @ s) = s"
proof -
  have "\<not> HasPrefix (''https://'' @ s) ''http://''"
    by (simp add: HasPrefix_def)
  then show ?thesis
    using Replace1_prefix [of "''https://''" s "[]"] HasPrefix_append [of "''https://''" s]
    by (simp add: clean_def)
qed

lemma clean_id: "\<not> HasPrefix s ''http://'' \<Longrightarrow> \<not> HasPrefix s ''https://'' \<Longrightarrow> clean s = s"
  by (simp add: clean_def)

lemma Parse_cong_clean: "clean a = clean b \<Longrightarrow> Parse M L a = Parse M L b"
  by (simp add: Parse_def)

text \<open>
  C8, as amended. It is \<open>Parse\<close>, through \<open>clean\<close>, that strips one leading \<open>http://\<close>
  or \<open>https://\<close>: \<open>clean\<close> of either prefix before \<open>s\<close> is \<open>s\<close>, so \<open>Parse\<close> of the two
  prefixed strings agree, and both agree with \<open>Parse s\<close> when \<open>s\<close> has no such prefix of
  its own. (\<open>ParseNamed\<close> hands its argument to the grammar parser as it is.)
\<close>

theorem Parse_strips_scheme:
  "clean (''https://'' @ s) = s \<and> clean (''http://'' @ s) = s
   \<and> Parse M L (''https://'' @ s) = Parse M L (''http://'' @ s)
   \<and> (\<not> HasPrefix s ''http://'' \<and> \<not> HasPrefix s ''https://'' \<longrightarrow>
        Parse M L (''https://'' @ s) = Parse M L s \<and> Parse M L (''http://'' @ s) = Parse M L s)"
proof (intro conjI impI)
  show "clean (''https://'' @ s) = s" by (rule clean_https)
  show "clean (''http://'' @ s) = s" by (rule clean_http)
  show "Parse M L (''https://'' @ s) = Parse M L (''http://'' @ s)"
    by (rule Parse_cong_clean) (simp only: clean_https clean_http)
next
  assume h: "\<not> HasPrefix s ''http://'' \<and> \<not> HasPrefix s ''https://''"
  then have c: "clean s = s" by (simp add: clean_id)
  show "Parse M L (''https://'' @ s) = Parse M L s"
    by (rule Parse_cong_clean) (simp only: clean_https c)
  show "Parse M L (''http://'' @ s) = Parse M L s"
    by (rule Parse_cong_clean) (simp only: clean_http c)
qed

theorem Parse_strips_scheme_witness:
  "\<not> HasPrefix ''ubuntu'' ''http://'' \<and> \<not> HasPrefix ''ubuntu'' ''https://''
   \<and> Parse keep_runes (distribution keep_runes) ''https://ubuntu'' = Parse keep_runes (distribution keep_runes) ''ubuntu''
   \<and> Parse keep_runes (distribution keep_runes) ''http://ubuntu'' = Parse keep_runes (distribution keep_runes) ''ubuntu''"
  using Parse_strips_scheme [of "''ubuntu''" keep_runes "distribution keep_runes"]
  by (simp add: HasPrefix_def)

text \<open>
  The specification places the stripping in \<open>ParseNamed\<close>, which strips nothing: the prefixed
  string reaches the grammar parser, which rejects it, while the bare name is accepted.
\<close>

theorem ParseNamed_scheme_counterexample:
  "ParseNamed keep_runes (distribution keep_runes) ''https://ubuntu''
   = Inl (ErrParsingReference ''https://ubuntu'' ''invalid reference format'')
   \<and> ParseNamed keep_runes (distribution keep_runes) ''ubuntu''
     = Inr (namedRef \<lparr>ref_Name = ''ubuntu'', ref_String = ''ubuntu'',
                      ref_Tag = None, ref_Digest = None\<rparr>)"
  by code_simp

lemma Ubuntu_examples:
  "ToLower M (snd (splitHostname ''Ubuntu'')) \<noteq> snd (splitHostname ''Ubuntu'')"
  "ToLower M ''library/Ubuntu'' \<noteq> ''library/Ubuntu''"
  "clean ''Ubuntu'' = ''Ubuntu''"
  "snd (splitHostname ''Ubuntu'') = ''library/Ubuntu''"
  by code_simp+

text \<open>
  \<open>Parse\<close> fails on an input whose path is not lower-case when the grammar parser has
  rejected the input or returns a name with the same path.
\<close>

lemma Parse_not_lower:
  assumes "ToLower M (snd (splitHostname (clean remote))) \<noteq> snd (splitHostname (clean remote))"
    and "\<forall>v. ParseNormalizedNamed L (clean remote) = Inr v \<longrightarrow>
           snd (splitHostname (ref_Name v)) = snd (splitHostname (clean remote))"
  shows "\<exists>e. Parse M L remote = Inl e"
proof (cases "ParseNormalizedNamed L (clean remote)")
  case (Inl e)
  then show ?thesis by (simp add: Parse_def ParseNamed_def)
next
  case (Inr v)
  with assms have "ToLower M (snd (splitHostname (ref_Name v))) \<noteq> snd (splitHostname (ref_Name v))"
    by simp
  then have "WithName M L (ref_Name v) = Inl ErrNotLowercase" by (rule WithName_not_lower)
  with Inr show ?thesis by (simp add: Parse_def ParseNamed_def)
qed

text \<open>
  C9. A name whose repository path is not entirely lower-case, that is, one that
  \<^verbatim>\<open>strings.ToLower\<close> changes, is rejected with the lower-case error by
  \<open>normalize_name\<close>, and so by \<open>WithName\<close>; so is \<open>Ubuntu\<close>. \<open>Parse\<close> returns a failure
  and no reference on every input with such a path, for every grammar parser that
  rejects the input or returns a name with the same path: the lower-case error when the
  name the parser returns has such a path, the parser's own error when it has rejected
  the string. So it does on \<open>Ubuntu\<close>.
\<close>

theorem not_lowercase_rejected:
  "(ToLower M (snd (splitHostname name)) \<noteq> snd (splitHostname name) \<longrightarrow>
      normalize_name M name = Inl ErrNotLowercase \<and> WithName M L name = Inl ErrNotLowercase)
   \<and> normalize_name M ''Ubuntu'' = Inl ErrNotLowercase
   \<and> (\<forall>v. ParseNormalizedNamed L (clean remote) = Inr v
           \<and> ToLower M (snd (splitHostname (ref_Name v))) \<noteq> snd (splitHostname (ref_Name v))
         \<longrightarrow> ParseNamed M L (clean remote) = Inl ErrNotLowercase
             \<and> Parse M L remote = Inl ErrNotLowercase)
   \<and> (\<forall>e. ParseNormalizedNamed L (clean remote) = Inl e
         \<longrightarrow> Parse M L remote = Inl (ErrParsingReference (clean remote) e))
   \<and> (ToLower M (snd (splitHostname (clean remote))) \<noteq> snd (splitHostname (clean remote))
        \<and> (\<forall>v. ParseNormalizedNamed L (clean remote) = Inr v \<longrightarrow>
               snd (splitHostname (ref_Name v)) = snd (splitHostname (clean remote)))
       \<longrightarrow> (\<exists>e. Parse M L remote = Inl e))
   \<and> ((\<forall>v. ParseNormalizedNamed L ''Ubuntu'' = Inr v \<longrightarrow>
               snd (splitHostname (ref_Name v)) = ''library/Ubuntu'')
       \<longrightarrow> (\<exists>e. Parse M L ''Ubuntu'' = Inl e))"
proof (intro conjI allI impI)
  assume "ToLower M (snd (splitHostname name)) \<noteq> snd (splitHostname name)"
  then show "normalize_name M name = Inl ErrNotLowercase"
    and "WithName M L name = Inl ErrNotLowercase"
    by (simp_all add: normalize_name_not_lower WithName_not_lower)
next
  show "normalize_name M ''Ubuntu'' = Inl ErrNotLowercase"
    using Ubuntu_examples(1) by (rule normalize_name_not_lower)
next
  fix v
  assume h: "ParseNormalizedNamed L (clean remote) = Inr v
           \<and> ToLower M (snd (splitHostname (ref_Name v))) \<noteq> snd (splitHostname (ref_Name v))"
  then have w: "WithName M L (ref_Name v) = Inl ErrNotLowercase"
    by (simp add: WithName_not_lower)
  with h show "ParseNamed M L (clean remote) = Inl ErrNotLowercase"
    by (simp add: ParseNamed_def)
  then show "Parse M L remote = Inl ErrNotLowercase" by (simp add: Parse_def)
next
  fix e
  assume "ParseNormalizedNamed L (clean remote) = Inl e"
  then show "Parse M L remote = Inl (ErrParsingReference (clean remote) e)"
    by (simp add: Parse_def ParseNamed_def)
next
  assume "ToLower M (snd (splitHostname (clean remote))) \<noteq> snd (splitHostname (clean remote))
        \<and> (\<forall>v. ParseNormalizedNamed L (clean remote) = Inr v \<longrightarrow>
               snd (splitHostname (ref_Name v)) = snd (splitHostname (clean remote)))"
  then show "\<exists>e. Parse M L remote = Inl e" by (simp add: Parse_not_lower)
next
  assume "\<forall>v. ParseNormalizedNamed L ''Ubuntu'' = Inr v \<longrightarrow>
               snd (splitHostname (ref_Name v)) = ''library/Ubuntu''"
  then show "\<exists>e. Parse M L ''Ubuntu'' = Inl e"
    using Parse_not_lower [of M "''Ubuntu''" L] Ubuntu_examples
    by simp
qed

lemma not_lowercase_examples:
  "clean ''Foo/bar'' = ''Foo/bar''"
  "ParseNormalizedNamed (distribution keep_runes) ''Foo/bar''
   = Inr \<lparr>ref_Name = ''Foo/bar'', ref_String = ''Foo/bar'', ref_Tag = None, ref_Digest = None\<rparr>"
  "ToLower keep_runes (snd (splitHostname ''Foo/bar'')) \<noteq> snd (splitHostname ''Foo/bar'')"
  "isl (ParseNormalizedNamed (distribution keep_runes) ''Ubuntu'')"
  by code_simp+

theorem not_lowercase_rejected_witness:
  "ToLower keep_runes (snd (splitHostname ''Ubuntu'')) \<noteq> snd (splitHostname ''Ubuntu'')
   \<and> normalize_name keep_runes ''Ubuntu'' = Inl ErrNotLowercase
   \<and> ParseNormalizedNamed (distribution keep_runes) (clean ''Foo/bar'')
     = Inr \<lparr>ref_Name = ''Foo/bar'', ref_String = ''Foo/bar'',
            ref_Tag = None, ref_Digest = None\<rparr>
   \<and> ToLower keep_runes (snd (splitHostname (clean ''Foo/bar'')))
     \<noteq> snd (splitHostname (clean ''Foo/bar''))
   \<and> Parse keep_runes (distribution keep_runes) ''Foo/bar'' = Inl ErrNotLowercase
   \<and> isl (ParseNormalizedNamed (distribution keep_runes) (clean ''Ubuntu''))
   \<and> isl (Parse keep_runes (distribution keep_runes) ''Ubuntu'')"
proof -
  note foo = not_lowercase_rejected [of keep_runes "''Ubuntu''" "distribution keep_runes" "''Foo/bar''"]
  note ubu = not_lowercase_rejected [of keep_runes "''Ubuntu''" "distribution keep_runes" "''Ubuntu''"]
  from not_lowercase_examples(4) obtain e
    where e: "ParseNormalizedNamed (distribution keep_runes) ''Ubuntu'' = Inl e"
    by (auto simp: isl_def)
  then have "\<forall>v. ParseNormalizedNamed (distribution keep_runes) ''Ubuntu'' = Inr v \<longrightarrow>
               snd (splitHostname (ref_Name v)) = ''library/Ubuntu''"
    by simp
  with ubu have "\<exists>e. Parse keep_runes (distribution keep_runes) ''Ubuntu'' = Inl e"
    by blast
  then have "isl (Parse keep_runes (distribution keep_runes) ''Ubuntu'')"
    by (auto simp: isl_def)
  moreover have "Parse keep_runes (distribution keep_runes) ''Foo/bar'' = Inl ErrNotLowercase"
    using foo not_lowercase_examples(1,2,3) by simp
  ultimately show ?thesis
    using foo not_lowercase_examples Ubuntu_examples by simp
qed

lemma Hostname_not_alias: "Hostname n \<noteq> ''docker.io''"
  using splitHostname_not_alias [of "named_Name n"]
  by (cases "splitHostname (named_Name n)") (simp add: Hostname_def)

lemma Registry_not_alias: "Reference_Registry r \<noteq> Inr ''docker.io''"
  using Hostname_not_alias by (simp add: Reference_Registry_def split: option.splits)

lemma validateName_ubuntu: "validateName ''ubuntu'' = None"
  by code_simp

lemma splitHostname_ubuntu:
  "splitHostname ''ubuntu'' = (''index.docker.io'', ''library/ubuntu'')"
  by code_simp

lemma clean_alias_ubuntu: "clean ''docker.io/library/ubuntu'' = ''docker.io/library/ubuntu''"
  by code_simp

text \<open>
  C5. The hostname is never the alias \<open>docker.io\<close>: not the one \<open>splitHostname\<close> returns
  for any name, hence not \<open>Hostname\<close> of any reference nor \<open>Registry\<close> of any reference
  that \<open>Parse\<close> returns. For \<open>docker.io/library/ubuntu\<close>, when the grammar parser reads
  the string as that bare name, accepts the name \<open>ubuntu\<close> and adds the default tag to it
  keeping the name, \<open>Parse\<close> succeeds and \<open>Registry\<close> is \<open>index.docker.io\<close>.
\<close>

theorem hostname_never_alias:
  "fst (splitHostname name) \<noteq> ''docker.io''
   \<and> Hostname n \<noteq> ''docker.io''
   \<and> (\<forall>r. Parse M L remote = Inr r \<longrightarrow> Reference_Registry r \<noteq> Inr ''docker.io'')
   \<and> (\<forall>v w u. ParseNormalizedNamed L ''docker.io/library/ubuntu'' = Inr v
          \<and> ref_Name v = ''docker.io/library/ubuntu''
          \<and> ref_Tag v = None \<and> ref_Digest v = None
          \<and> ref_WithName L ''ubuntu'' = Inr w
          \<and> ref_WithTag L (Some (namedRef w)) DefaultTag = Inr u
          \<and> ref_Name u = ''ubuntu'' \<and> ref_Tag u \<noteq> None
        \<longrightarrow> (\<exists>r. Parse M L ''docker.io/library/ubuntu'' = Inr r
                 \<and> Reference_Registry r = Inr ''index.docker.io''))"
proof (intro conjI allI impI)
  show "fst (splitHostname name) \<noteq> ''docker.io''" by (rule splitHostname_not_alias)
  show "Hostname n \<noteq> ''docker.io''" by (rule Hostname_not_alias)
  show "Reference_Registry r \<noteq> Inr ''docker.io''" for r by (rule Registry_not_alias)
next
  fix v w u
  assume h: "ParseNormalizedNamed L ''docker.io/library/ubuntu'' = Inr v
          \<and> ref_Name v = ''docker.io/library/ubuntu''
          \<and> ref_Tag v = None \<and> ref_Digest v = None
          \<and> ref_WithName L ''ubuntu'' = Inr w
          \<and> ref_WithTag L (Some (namedRef w)) DefaultTag = Inr u
          \<and> ref_Name u = ''ubuntu'' \<and> ref_Tag u \<noteq> None"
  then have wn: "WithName M L (ref_Name v) = Inr (namedRef w)"
    by (simp add: WithName_def normalize_alias_ubuntu validateName_ubuntu)
  with h have pn: "ParseNamed M L ''docker.io/library/ubuntu'' = Inr (namedRef w)"
    by (simp add: ParseNamed_def)
  from h have wd: "WithDefaultTag L (Some (namedRef w)) = Some (taggedRef u)"
    by (simp add: WithDefaultTag_tagged IsNameOnly_def)
  from h obtain t where t: "ref_Tag u = Some t" by auto
  have "Parse M L ''docker.io/library/ubuntu''
        = Inr \<lparr>named = Some (taggedRef u), tag = '':'' @ t\<rparr>"
    using pn wd t by (simp add: Parse_def clean_alias_ubuntu taggedRef_Tag_def)
  moreover have "Reference_Registry \<lparr>named = Some (taggedRef u), tag = '':'' @ t\<rparr>
                 = Inr ''index.docker.io''"
    using h
    by (simp add: Reference_Registry_def Hostname_def named_Name_def splitHostname_ubuntu)
  ultimately show "\<exists>r. Parse M L ''docker.io/library/ubuntu'' = Inr r
                 \<and> Reference_Registry r = Inr ''index.docker.io''" by blast
qed

lemma alias_ubuntu_examples:
  "ParseNormalizedNamed (distribution keep_runes) ''docker.io/library/ubuntu''
   = Inr \<lparr>ref_Name = ''docker.io/library/ubuntu'', ref_String = ''docker.io/library/ubuntu'',
          ref_Tag = None, ref_Digest = None\<rparr>"
  "ref_WithName (distribution keep_runes) ''ubuntu''
   = Inr \<lparr>ref_Name = ''ubuntu'', ref_String = ''ubuntu'', ref_Tag = None, ref_Digest = None\<rparr>"
  "Parse keep_runes (distribution keep_runes) ''docker.io/library/ubuntu''
   = Inr \<lparr>named = Some (taggedRef \<lparr>ref_Name = ''ubuntu'', ref_String = ''ubuntu:latest'',
                                    ref_Tag = Some ''latest'', ref_Digest = None\<rparr>),
          tag = '':latest''\<rparr>"
  by code_simp+

theorem hostname_never_alias_witness:
  "ParseNormalizedNamed (distribution keep_runes) ''docker.io/library/ubuntu''
   = Inr \<lparr>ref_Name = ''docker.io/library/ubuntu'', ref_String = ''docker.io/library/ubuntu'',
          ref_Tag = None, ref_Digest = None\<rparr>
   \<and> ref_WithName (distribution keep_runes) ''ubuntu''
     = Inr \<lparr>ref_Name = ''ubuntu'', ref_String = ''ubuntu'', ref_Tag = None, ref_Digest = None\<rparr>
   \<and> ref_WithTag (distribution keep_runes)
       (Some (namedRef \<lparr>ref_Name = ''ubuntu'', ref_String = ''ubuntu'',
                        ref_Tag = None, ref_Digest = None\<rparr>)) DefaultTag
     = Inr \<lparr>ref_Name = ''ubuntu'', ref_String = ''ubuntu:latest'',
            ref_Tag = Some ''latest'', ref_Digest = None\<rparr>
   \<and> Parse keep_runes (distribution keep_runes) ''docker.io/library/ubuntu''
     = Inr \<lparr>named = Some (taggedRef \<lparr>ref_Name = ''ubuntu'', ref_String = ''ubuntu:latest'',
                                      ref_Tag = Some ''latest'', ref_Digest = None\<rparr>),
            tag = '':latest''\<rparr>
   \<and> Reference_Registry
       \<lparr>named = Some (taggedRef \<lparr>ref_Name = ''ubuntu'', ref_String = ''ubuntu:latest'',
                                  ref_Tag = Some ''latest'', ref_Digest = None\<rparr>),
        tag = '':latest''\<rparr> = Inr ''index.docker.io''
   \<and> Reference_Registry
       \<lparr>named = Some (taggedRef \<lparr>ref_Name = ''ubuntu'', ref_String = ''ubuntu:latest'',
                                  ref_Tag = Some ''latest'', ref_Digest = None\<rparr>),
        tag = '':latest''\<rparr> \<noteq> Inr ''docker.io''"
  using hostname_never_alias
    [of "''docker.io/library/ubuntu''"
        "namedRef \<lparr>ref_Name = ''ubuntu'', ref_String = ''ubuntu'',
                   ref_Tag = None, ref_Digest = None\<rparr>"
        keep_runes "distribution keep_runes" "''docker.io/library/ubuntu''"]
    alias_ubuntu_examples WithDefaultTag_ubuntu
  by simp

section \<open>ParseRepo\<close>

text \<open>\<open>ParseRepo\<close> is \<open>Parse\<close>, then the accessors, which panic on a nil name.\<close>

lemma ParseRepo_as_Parse:
  "ParseRepo M L remote =
     (case Parse M L remote of
        Inl e \<Rightarrow> Inl e
      | Inr r \<Rightarrow>
          (case named r of
             None \<Rightarrow> Inl Panic
           | Some n \<Rightarrow>
               Inr \<lparr>Name = RemoteName n @ tag r, Repository = FullName n,
                    Registry = Hostname n, Scheme = [], ShortName = RemoteName n,
                    Remote = FullName n @ tag r, Tag = Reference_Tag r\<rparr>))"
  by (simp add: ParseRepo_def Parse_def Let_def Reference_Name_def Reference_Repository_def
      Reference_Registry_def Reference_Remote_def Reference_ShortName_def
      split: sum.splits option.splits)

lemma Parse_named_not_nil:
  assumes acc: "\<forall>w. \<exists>u. ref_WithTag L (Some (namedRef w)) DefaultTag = Inr u"
    and p: "Parse M L remote = Inr r"
  shows "named r \<noteq> None"
proof -
  from Parse_Inr [OF p] obtain n0 where n: "named r = WithDefaultTag L (Some n0)" by blast
  show ?thesis
  proof (cases n0)
    case (namedRef w)
    from acc obtain u where "ref_WithTag L (Some (namedRef w)) DefaultTag = Inr u" by blast
    then show ?thesis using n namedRef by (simp add: WithDefaultTag_tagged IsNameOnly_def)
  next
    case (taggedRef w)
    then show ?thesis using n by (simp add: WithDefaultTag_fixed IsNameOnly_def)
  next
    case (canonicalRef w)
    then show ?thesis using n by (simp add: WithDefaultTag_fixed IsNameOnly_def)
  qed
qed

lemma ParseRepo_app:
  "ParseRepo keep_runes (distribution keep_runes) ''myregistry.local:5000/team/app:1.2''
   = Inr \<lparr>Name = ''team/app:1.2'', Repository = ''myregistry.local:5000/team/app'',
          Registry = ''myregistry.local:5000'', Scheme = [], ShortName = ''team/app'',
          Remote = ''myregistry.local:5000/team/app:1.2'', Tag = ''1.2''\<rparr>"
  by code_simp

text \<open>
  C4, as amended. In every record that \<open>ParseRepo\<close> returns, the field \<open>Scheme\<close> is the
  empty string: the function gives the field no value, and \<open>DefaultScheme\<close> is not used.
\<close>

theorem ParseRepo_Scheme_empty:
  "ParseRepo M L remote = Inr repo \<Longrightarrow> Scheme repo = [] \<and> Scheme repo \<noteq> DefaultScheme"
  by (auto simp: ParseRepo_as_Parse DefaultScheme_def split: sum.splits option.splits)

theorem ParseRepo_Scheme_empty_witness:
  "ParseRepo keep_runes (distribution keep_runes) ''myregistry.local:5000/team/app:1.2''
   = Inr \<lparr>Name = ''team/app:1.2'', Repository = ''myregistry.local:5000/team/app'',
          Registry = ''myregistry.local:5000'', Scheme = [], ShortName = ''team/app'',
          Remote = ''myregistry.local:5000/team/app:1.2'', Tag = ''1.2''\<rparr>
   \<and> Scheme \<lparr>Name = ''team/app:1.2'', Repository = ''myregistry.local:5000/team/app'',
          Registry = ''myregistry.local:5000'', Scheme = [], ShortName = ''team/app'',
          Remote = ''myregistry.local:5000/team/app:1.2'', Tag = ''1.2''\<rparr> = []"
  using ParseRepo_Scheme_empty [OF ParseRepo_app] ParseRepo_app by simp

text \<open>
  The specification has \<open>Scheme\<close> equal to \<open>https\<close>. For \<open>ubuntu\<close> the record is
  returned with an empty \<open>Scheme\<close>.
\<close>

theorem ParseRepo_Scheme_counterexample:
  "ParseRepo keep_runes (distribution keep_runes) ''ubuntu''
   = Inr \<lparr>Name = ''library/ubuntu:latest'', Repository = ''index.docker.io/library/ubuntu'',
          Registry = ''index.docker.io'', Scheme = [], ShortName = ''library/ubuntu'',
          Remote = ''index.docker.io/library/ubuntu:latest'', Tag = ''latest''\<rparr>
   \<and> DefaultScheme = ''https''"
  by code_simp

text \<open>
  C10. \<open>ParseRepo\<close> is \<open>Parse\<close> followed by a copy of the accessors. It fails when
  \<open>Parse\<close> fails or returns a reference whose name is nil, on which the accessors panic;
  on every other reference it returns the record whose \<open>Name\<close>, \<open>Repository\<close>,
  \<open>Registry\<close>, \<open>Remote\<close>, \<open>ShortName\<close> and \<open>Tag\<close> are what the accessors of that reference
  return. A nil name needs the \<^verbatim>\<open>reference\<close> package to refuse the default tag; where it
  accepts the default tag on every plain name, \<open>ParseRepo\<close> fails exactly when \<open>Parse\<close>
  fails.
\<close>

theorem ParseRepo_refines_Parse:
  "((\<exists>e. ParseRepo M L remote = Inl e) \<longleftrightarrow>
      (\<exists>e. Parse M L remote = Inl e) \<or> (\<exists>r. Parse M L remote = Inr r \<and> named r = None))
   \<and> (\<forall>r. Parse M L remote = Inr r \<and> named r \<noteq> None \<longrightarrow>
        (\<exists>repo. ParseRepo M L remote = Inr repo
           \<and> Reference_Name r = Inr (Name repo)
           \<and> Reference_Repository r = Inr (Repository repo)
           \<and> Reference_Registry r = Inr (Registry repo)
           \<and> Reference_Remote r = Inr (Remote repo)
           \<and> Reference_ShortName r = Inr (ShortName repo)
           \<and> Reference_Tag r = Tag repo))
   \<and> ((\<forall>w. \<exists>u. ref_WithTag L (Some (namedRef w)) DefaultTag = Inr u) \<longrightarrow>
        ((\<exists>e. ParseRepo M L remote = Inl e) \<longleftrightarrow> (\<exists>e. Parse M L remote = Inl e))
        \<and> (\<forall>r. Parse M L remote = Inr r \<longrightarrow> named r \<noteq> None))"
proof (intro conjI allI impI)
  show "(\<exists>e. ParseRepo M L remote = Inl e) \<longleftrightarrow>
      (\<exists>e. Parse M L remote = Inl e) \<or> (\<exists>r. Parse M L remote = Inr r \<and> named r = None)"
    by (auto simp: ParseRepo_as_Parse split: sum.splits option.splits)
next
  fix r
  assume "Parse M L remote = Inr r \<and> named r \<noteq> None"
  then show "\<exists>repo. ParseRepo M L remote = Inr repo
           \<and> Reference_Name r = Inr (Name repo)
           \<and> Reference_Repository r = Inr (Repository repo)
           \<and> Reference_Registry r = Inr (Registry repo)
           \<and> Reference_Remote r = Inr (Remote repo)
           \<and> Reference_ShortName r = Inr (ShortName repo)
           \<and> Reference_Tag r = Tag repo"
    by (auto simp: ParseRepo_as_Parse Reference_Name_def Reference_Repository_def
      Reference_Registry_def Reference_Remote_def Reference_ShortName_def)
next
  assume acc: "\<forall>w. \<exists>u. ref_WithTag L (Some (namedRef w)) DefaultTag = Inr u"
  then have nn: "named r \<noteq> None" if "Parse M L remote = Inr r" for r
    using that by (rule Parse_named_not_nil)
  then show "(\<exists>e. ParseRepo M L remote = Inl e) \<longleftrightarrow> (\<exists>e. Parse M L remote = Inl e)"
    by (auto simp: ParseRepo_as_Parse split: sum.splits option.splits)
  show "named r \<noteq> None" if "Parse M L remote = Inr r" for r
    using that by (rule nn)
qed

lemma ParseRepo_debian:
  "Parse keep_runes (distribution keep_runes) (''debian@'' @ sample_digest)
   = Inr \<lparr>named = Some (canonicalRef
                    \<lparr>ref_Name = ''debian'', ref_String = ''debian@'' @ sample_digest,
                     ref_Tag = None, ref_Digest = Some sample_digest\<rparr>),
          tag = ''@'' @ sample_digest\<rparr>"
  "ParseRepo keep_runes (distribution keep_runes) (''debian@'' @ sample_digest)
   = Inr \<lparr>Name = ''library/debian@'' @ sample_digest,
          Repository = ''index.docker.io/library/debian'',
          Registry = ''index.docker.io'', Scheme = [], ShortName = ''library/debian'',
          Remote = ''index.docker.io/library/debian@'' @ sample_digest,
          Tag = sample_digest\<rparr>"
  by code_simp+

theorem ParseRepo_refines_Parse_witness:
  "(\<forall>w. \<exists>u. ref_WithTag (distribution keep_runes) (Some (namedRef w)) DefaultTag = Inr u)
   \<and> Parse keep_runes (distribution keep_runes) (''debian@'' @ sample_digest)
     = Inr \<lparr>named = Some (canonicalRef
                      \<lparr>ref_Name = ''debian'', ref_String = ''debian@'' @ sample_digest,
                       ref_Tag = None, ref_Digest = Some sample_digest\<rparr>),
            tag = ''@'' @ sample_digest\<rparr>
   \<and> ParseRepo keep_runes (distribution keep_runes) (''debian@'' @ sample_digest)
     = Inr \<lparr>Name = ''library/debian@'' @ sample_digest,
            Repository = ''index.docker.io/library/debian'',
            Registry = ''index.docker.io'', Scheme = [], ShortName = ''library/debian'',
            Remote = ''index.docker.io/library/debian@'' @ sample_digest,
            Tag = sample_digest\<rparr>
   \<and> Reference_Name
       \<lparr>named = Some (canonicalRef
                    \<lparr>ref_Name = ''debian'', ref_String = ''debian@'' @ sample_digest,
                     ref_Tag = None, ref_Digest = Some sample_digest\<rparr>),
        tag = ''@'' @ sample_digest\<rparr> = Inr (''library/debian@'' @ sample_digest)
   \<and> \<not> (\<exists>e. ParseRepo keep_runes (distribution keep_runes) (''debian@'' @ sample_digest) = Inl e)
   \<and> \<not> (\<exists>e. Parse keep_runes (distribution keep_runes) (''debian@'' @ sample_digest) = Inl e)"
  using ParseRepo_refines_Parse
    [of keep_runes "distribution keep_runes" "''debian@'' @ sample_digest"]
    distribution_accepts_default_tag ParseRepo_debian
  by auto

end
